theory Spec2Isabelle
  imports Main "HOL-Library.List_Lexorder" "HOL-Library.Char_ord"
begin

section \<open>FlowGraph verifier: strings and the outside world\<close>

text \<open>
  The verifier is a JavaScript command-line program. Its strings are modelled as
  \<^typ>\<open>string\<close>; a character stands for one code unit, so the model covers text in the
  Latin-1 range. JSON objects are association lists in the order \<open>Object.entries\<close>
  enumerates them. A lookup \<open>obj[k]\<close> finds the entry of the list or, when there is
  none, a member that every object inherits from \<open>Object.prototype\<close>. Line numbers are
  natural numbers (the source parses them with \<open>parseInt\<close>; the model is exact where
  the source rounds above \<open>2^53\<close>).

  Each verifier is modelled by the records it appends to the result list. Where the
  source throws a \<open>TypeError\<close> (it reads \<open>loc\<close> of an inherited member, which has
  none, and splits it), the call appends nothing; the functions of the whole run
  describe the runs in which no call throws.
\<close>

subsection \<open>String primitives of the host language\<close>

text \<open>\<open>s.startsWith(p)\<close>, used here to define \<open>String.includes\<close> and \<open>replace\<close>.\<close>

fun starts_with :: "string \<Rightarrow> string \<Rightarrow> bool" where
  "starts_with s [] = True"
| "starts_with [] (p # ps) = False"
| "starts_with (c # cs) (p # ps) = (c = p \<and> starts_with cs ps)"

text \<open>\<open>s.includes(t)\<close>: \<open>t\<close> occurs in \<open>s\<close> as a contiguous substring.\<close>

fun includes_str :: "string \<Rightarrow> string \<Rightarrow> bool" where
  "includes_str [] t = (t = [])"
| "includes_str (c # cs) t = (starts_with (c # cs) t \<or> includes_str cs t)"

text \<open>\<open>s.replace(p, "")\<close> with a string pattern: the first occurrence of \<open>p\<close> is removed.\<close>

fun remove_first :: "string \<Rightarrow> string \<Rightarrow> string" where
  "remove_first p [] = []"
| "remove_first p (c # cs) =
     (if starts_with (c # cs) p then drop (length p) (c # cs) else c # remove_first p cs)"

text \<open>\<open>s.split(d)\<close> for a one-character separator; the result is never empty.\<close>

fun split_on :: "char \<Rightarrow> string \<Rightarrow> string list" where
  "split_on d [] = [[]]"
| "split_on d (c # cs) =
     (if c = d then [] # split_on d cs
      else (case split_on d cs of [] \<Rightarrow> [[c]] | x # xs \<Rightarrow> (c # x) # xs))"

text \<open>\<open>xs.join(sep)\<close>.\<close>

fun join :: "string \<Rightarrow> string list \<Rightarrow> string" where
  "join sep [] = []"
| "join sep [x] = x"
| "join sep (x # y # ys) = x @ sep @ join sep (y # ys)"

definition is_digit :: "char \<Rightarrow> bool" where
  "is_digit c = (48 \<le> (of_char c :: nat) \<and> (of_char c :: nat) \<le> 57)"

text \<open>The test \<open>/^\d+$/\<close>: one or more decimal digits and nothing else.\<close>

definition is_numeric :: "string \<Rightarrow> bool" where
  "is_numeric s = (s \<noteq> [] \<and> list_all is_digit s)"

text \<open>\<open>parseInt(s, 10)\<close> on a string of decimal digits.\<close>

definition parseInt :: "string \<Rightarrow> nat" where
  "parseInt s = foldl (\<lambda>a c. 10 * a + ((of_char c :: nat) - 48)) 0 s"

subsection \<open>File system and path resolution\<close>

text \<open>
  \<open>path.resolve\<close> and \<open>fs.readFileSync\<close> belong to the runtime, not to the program:
  they are the two fields of the world the verifier runs in. A read that throws is
  \<open>None\<close>.
\<close>

record world =
  path_resolve :: "string \<Rightarrow> string \<Rightarrow> string \<Rightarrow> string"
  readFileSync :: "string \<Rightarrow> string option"

record resolved =
  filePath :: string
  line :: "nat option"

definition resolveLoc :: "world \<Rightarrow> string \<Rightarrow> string \<Rightarrow> string \<Rightarrow> resolved" where
  "resolveLoc w loc root projectRoot =
     (let parts = split_on CHR '':'' loc;
          stripped = (length parts > 1 \<and> is_numeric (last parts));
          linePart = (if stripped then Some (last parts) else None);
          parts' = (if stripped then butlast parts else parts);
          pathPart = join '':'' parts'
      in \<lparr> filePath = path_resolve w projectRoot root pathPart,
           line = map_option parseInt linePart \<rparr>)"

definition readSource :: "world \<Rightarrow> string \<Rightarrow> string option" where
  "readSource w fp = readFileSync w fp"

text \<open>
  The guard \<open>if (!source)\<close>: \<open>null\<close> and the empty string are both falsy, so an
  empty file is treated like a missing one.
\<close>

definition no_source :: "string option \<Rightarrow> bool" where
  "no_source src = (case src of None \<Rightarrow> True | Some s \<Rightarrow> s = [])"

text \<open>A small world for the examples: paths are concatenated, the files are listed.\<close>

definition example_world :: "(string \<times> string) list \<Rightarrow> world" where
  "example_world files =
     \<lparr> path_resolve = (\<lambda>projectRoot root p. projectRoot @ root @ p),
       readFileSync = map_of files \<rparr>"

subsection \<open>Regular expressions\<close>

text \<open>
  The program builds its patterns with \<open>new RegExp(`...${esc(name)}...`)\<close>. The
  function \<open>esc\<close> puts a backslash before every character that is special in a
  pattern, so the pattern text it returns matches \<open>name\<close> literally: in the syntax
  tree of a pattern it is the node \<open>Lit name\<close>. The trees below are the parses of the
  program's template strings. The matcher is the runtime's; it is modelled for the
  constructs the program uses: literals, the classes \<open>\s\<close>, \<open>\w\<close>, \<open>.\<close> and
  bracketed sets, \<open>*\<close> and \<open>+\<close> on a class, \<open>?\<close>, sequence, alternative, \<open>\b\<close>,
  and the flag \<open>i\<close>.
\<close>

datatype cls = Space | WordCh | Dot | OneOf string

datatype rx =
    Lit string
  | One cls
  | Star cls
  | Plus cls
  | Opt rx
  | Seq "rx list"
  | Alt "rx list"
  | WordB

definition is_word :: "char \<Rightarrow> bool" where
  "is_word c =
     (c \<in> set ''abcdefghijklmnopqrstuvwxyzABCDEFGHIJKLMNOPQRSTUVWXYZ0123456789_'')"

definition is_space :: "char \<Rightarrow> bool" where
  "is_space c =
     (c \<in> set [CHR 0x09, CHR 0x0A, CHR 0x0B, CHR 0x0C, CHR 0x0D, CHR 0x20, CHR 0xA0])"

fun in_cls :: "cls \<Rightarrow> char \<Rightarrow> bool" where
  "in_cls Space c = is_space c"
| "in_cls WordCh c = is_word c"
| "in_cls Dot c = (c \<notin> set [CHR 0x0A, CHR 0x0D])"
| "in_cls (OneOf cs) c = (c \<in> set cs)"

definition lower_letters :: string where
  "lower_letters = ''abcdefghijklmnopqrstuvwxyz'' @
     [CHR 0xE0, CHR 0xE1, CHR 0xE2, CHR 0xE3, CHR 0xE4, CHR 0xE5, CHR 0xE6, CHR 0xE7,
      CHR 0xE8, CHR 0xE9, CHR 0xEA, CHR 0xEB, CHR 0xEC, CHR 0xED, CHR 0xEE, CHR 0xEF,
      CHR 0xF0, CHR 0xF1, CHR 0xF2, CHR 0xF3, CHR 0xF4, CHR 0xF5, CHR 0xF6,
      CHR 0xF8, CHR 0xF9, CHR 0xFA, CHR 0xFB, CHR 0xFC, CHR 0xFD, CHR 0xFE]"

definition upper_letters :: string where
  "upper_letters = ''ABCDEFGHIJKLMNOPQRSTUVWXYZ'' @
     [CHR 0xC0, CHR 0xC1, CHR 0xC2, CHR 0xC3, CHR 0xC4, CHR 0xC5, CHR 0xC6, CHR 0xC7,
      CHR 0xC8, CHR 0xC9, CHR 0xCA, CHR 0xCB, CHR 0xCC, CHR 0xCD, CHR 0xCE, CHR 0xCF,
      CHR 0xD0, CHR 0xD1, CHR 0xD2, CHR 0xD3, CHR 0xD4, CHR 0xD5, CHR 0xD6,
      CHR 0xD8, CHR 0xD9, CHR 0xDA, CHR 0xDB, CHR 0xDC, CHR 0xDD, CHR 0xDE]"

text \<open>The case folding of the flag \<open>i\<close>: a character is compared by its upper case.\<close>

definition canonicalize :: "char \<Rightarrow> char" where
  "canonicalize c =
     (case map_of (zip lower_letters upper_letters) c of Some u \<Rightarrow> u | None \<Rightarrow> c)"

text \<open>\<open>s.toLowerCase()\<close>.\<close>

definition toLowerCase :: "string \<Rightarrow> string" where
  "toLowerCase s =
     map (\<lambda>c. case map_of (zip upper_letters lower_letters) c of Some l \<Rightarrow> l | None \<Rightarrow> c) s"

definition same_char :: "bool \<Rightarrow> char \<Rightarrow> char \<Rightarrow> bool" where
  "same_char ignoreCase a b =
     (if ignoreCase then canonicalize a = canonicalize b else a = b)"

text \<open>
  A cursor is a position in the subject: whether the character before it is a word
  character (what \<open>\b\<close> looks at), and the text that follows.
\<close>

type_synonym cursor = "bool \<times> string"

fun lit :: "bool \<Rightarrow> string \<Rightarrow> bool \<Rightarrow> string \<Rightarrow> cursor list" where
  "lit ic [] pw s = [(pw, s)]"
| "lit ic (t # ts) pw [] = []"
| "lit ic (t # ts) pw (c # cs) = (if same_char ic t c then lit ic ts (is_word c) cs else [])"

fun star :: "cls \<Rightarrow> bool \<Rightarrow> string \<Rightarrow> cursor list" where
  "star k pw [] = [(pw, [])]"
| "star k pw (c # cs) = (pw, c # cs) # (if in_cls k c then star k (is_word c) cs else [])"

fun next_word :: "string \<Rightarrow> bool" where
  "next_word [] = False"
| "next_word (c # cs) = is_word c"

text \<open>\<open>ends ic r p\<close>: the cursors at which a match of \<open>r\<close> that starts at \<open>p\<close> can end.\<close>

fun ends :: "bool \<Rightarrow> rx \<Rightarrow> cursor \<Rightarrow> cursor list" where
  "ends ic (Lit t) (pw, s) = lit ic t pw s"
| "ends ic (One k) (pw, s) =
     (case s of [] \<Rightarrow> [] | c # cs \<Rightarrow> if in_cls k c then [(is_word c, cs)] else [])"
| "ends ic (Star k) (pw, s) = star k pw s"
| "ends ic (Plus k) (pw, s) =
     (case s of [] \<Rightarrow> [] | c # cs \<Rightarrow> if in_cls k c then star k (is_word c) cs else [])"
| "ends ic (Opt r) p = p # ends ic r p"
| "ends ic (Seq []) p = [p]"
| "ends ic (Seq (r # rs)) p = concat (map (ends ic (Seq rs)) (ends ic r p))"
| "ends ic (Alt rs) p = concat (map (\<lambda>r. ends ic r p) rs)"
| "ends ic WordB (pw, s) = (if pw \<noteq> next_word s then [(pw, s)] else [])"

fun search :: "bool \<Rightarrow> rx \<Rightarrow> bool \<Rightarrow> string \<Rightarrow> bool" where
  "search ic r pw [] = (ends ic r (pw, []) \<noteq> [])"
| "search ic r pw (c # cs) = (ends ic r (pw, c # cs) \<noteq> [] \<or> search ic r (is_word c) cs)"

text \<open>\<open>pattern.test(source)\<close>: the pattern matches somewhere in the source.\<close>

definition rx_test :: "rx \<Rightarrow> bool \<Rightarrow> string \<Rightarrow> bool" where
  "rx_test r ignoreCase s = search ignoreCase r False s"

text \<open>A pattern handed to \<open>has\<close> is a string or a regular expression with its flag.\<close>

datatype pattern = Text string | RegExp rx bool

fun has :: "string \<Rightarrow> pattern \<Rightarrow> bool" where
  "has source (Text t) = includes_str source t"
| "has source (RegExp r ignoreCase) = rx_test r ignoreCase source"

text \<open>The character set \<open>['"`]\<close>.\<close>

definition quote :: cls where
  "quote = OneOf [CHR 0x27, CHR 0x22, CHR 0x60]"

text \<open>
  \<open>xs.slice(start, stop)\<close> for \<open>start \<ge> 0\<close>: a negative \<open>stop\<close> counts from the end.
\<close>

definition slice :: "'a list \<Rightarrow> nat \<Rightarrow> int \<Rightarrow> 'a list" where
  "slice xs start stop =
     (let final = (if stop < 0 then nat (max 0 (int (length xs) + stop))
                   else min (length xs) (nat stop))
      in take (final - start) (drop start xs))"

text \<open>
  \<open>getRegion\<close>: the lines \<open>lineNum - radius\<close> to \<open>lineNum + radius - 1\<close> (counted from
  1), cut to the file.
\<close>

definition getRegion :: "string \<Rightarrow> nat \<Rightarrow> nat \<Rightarrow> string" where
  "getRegion source lineNum radius =
     (let lines = split_on CHR 0x0A source;
          start = nat (max 0 (int lineNum - 1 - int radius));
          stop = min (int (length lines)) (int lineNum - 1 + int radius)
      in join [CHR 0x0A] (slice lines start stop))"

text \<open>Decimal rendering of a number inside a template string.\<close>

function show_nat :: "nat \<Rightarrow> string" where
  "show_nat n =
     (if n < 10 then [char_of (48 + n)]
      else show_nat (n div 10) @ [char_of (48 + n mod 10)])"
  by pat_completeness auto
termination
  by (relation "measure (\<lambda>n. n)") auto

declare show_nat.simps [simp del]

section \<open>Data model\<close>

datatype status = PASS | FAIL | WARN

record result =
  status :: status
  rid :: string
  category :: string
  message :: string

text \<open>
  \<open>record(status, category, id, message)\<close> appends to the global list \<open>results\<close>.
  Each verifier below returns the records it appends, in order; the run concatenates
  them.
\<close>

definition record_result :: "status \<Rightarrow> string \<Rightarrow> string \<Rightarrow> string \<Rightarrow> result" where
  "record_result st cat i msg = \<lparr> status = st, rid = i, category = cat, message = msg \<rparr>"

text \<open>
  A node: \<open>kind\<close>, \<open>loc\<close>, and the optional fields the verifier reads
  (\<open>schema\<close>, \<open>values\<close>, \<open>fk\<close>). Field names carry a prefix per record.
\<close>

record node =
  n_kind :: string
  n_loc :: string
  n_schema :: "string option"
  n_values :: "string list option"
  n_fk :: "string list option"

text \<open>An entry of \<open>edges\<close>; \<open>note\<close> and \<open>_comment\<close> are optional.\<close>

record edge =
  e_from :: string
  e_to :: string
  e_rel :: string
  e_note :: "string option"
  e_comment :: "string option"

text \<open>
  The \<open>then\<close> of a step: a string (\<open>next\<close>, \<open>DONE\<close>, \<open>FAIL\<close> or a node id), or an
  object from condition labels to targets.
\<close>

datatype then_value = Goto string | Branch "(string \<times> string) list"

record step =
  s_node :: string
  s_then :: then_value

record flow =
  f_trigger :: string
  f_steps :: "step list"

record invariant =
  inv_id :: string
  inv_rule :: string
  inv_scope :: "string list option"
  inv_enforce :: "string option"

record flowgraph =
  fg_root :: "string option"
  fg_nodes :: "(string \<times> node) list"
  fg_edges :: "edge list"
  fg_flows :: "(string \<times> flow) list option"
  fg_invariants :: "invariant list option"

text \<open>
  The names of the members of \<open>Object.prototype\<close>. An object made by \<open>JSON.parse\<close>
  or by an object literal inherits them, and each of them is truthy.
\<close>

definition inherited_names :: "string list" where
  "inherited_names =
     [''constructor'', ''__defineGetter__'', ''__defineSetter__'', ''hasOwnProperty'',
      ''__lookupGetter__'', ''__lookupSetter__'', ''isPrototypeOf'', ''propertyIsEnumerable'',
      ''toString'', ''valueOf'', ''__proto__'', ''toLocaleString'']"

text \<open>
  \<open>obj[k]\<close>: the own entry, else an inherited member, else \<open>undefined\<close> (\<open>None\<close>).
  The values of the own entries are objects, so the lookup is truthy exactly when it
  is not \<open>None\<close>.
\<close>

datatype 'a member = Own 'a | Inherited

definition get_member :: "(string \<times> 'a) list \<Rightarrow> string \<Rightarrow> 'a member option" where
  "get_member obj k =
     (case map_of obj k of
        Some v \<Rightarrow> Some (Own v)
      | None \<Rightarrow> if k \<in> set inherited_names then Some Inherited else None)"

text \<open>Truthiness of an optional string: present and not empty.\<close>

definition truthy :: "string option \<Rightarrow> bool" where
  "truthy v = (case v of None \<Rightarrow> False | Some s \<Rightarrow> s \<noteq> [])"

text \<open>A name between single quotes, as the messages print it.\<close>

definition quoted :: "string \<Rightarrow> string" where
  "quoted s = [CHR 0x27] @ s @ [CHR 0x27]"

section \<open>Node verification\<close>

definition file_not_found :: "string \<Rightarrow> node \<Rightarrow> result" where
  "file_not_found i nd = record_result FAIL ''structural'' i (''File not found: '' @ n_loc nd)"

definition typePatterns :: "string \<Rightarrow> pattern list" where
  "typePatterns typeName =
     [RegExp (Seq [Alt [Lit ''interface'', Lit ''type'', Lit ''enum'', Lit ''class'', Lit ''struct''],
                   Plus Space, Lit typeName, WordB]) False,
      RegExp (Seq [Alt [Lit ''const'', Lit ''export const'', Lit ''let'', Lit ''var''],
                   Plus Space, Lit typeName, Lit ''Schema'', Star Space, Lit ''='']) False,
      RegExp (Seq [Alt [Lit ''const'', Lit ''export const'', Lit ''let'', Lit ''var''],
                   Plus Space, Lit typeName, Star Space, Lit ''='']) False,
      RegExp (Seq [Alt [Lit ''def'', Lit ''class''],
                   Plus Space, Lit typeName, One (OneOf [CHR '':'', CHR ''('', CHR 0x08])]) False]"

definition verifyTypeNode :: "world \<Rightarrow> string \<Rightarrow> node \<Rightarrow> string \<Rightarrow> string \<Rightarrow> result list" where
  "verifyTypeNode w i nd root projectRoot =
     (let r = resolveLoc w (n_loc nd) root projectRoot in
      case readSource w (filePath r) of
        None \<Rightarrow> [file_not_found i nd]
      | Some source \<Rightarrow>
          if source = [] then [file_not_found i nd]
          else
            let typeName = remove_first ''type:'' i;
                patterns = typePatterns typeName
            in
              if \<not> list_ex (has source) patterns
              then [record_result FAIL ''structural'' i
                      (''Type '' @ quoted typeName @ '' not found in '' @ n_loc nd)]
              else
                [case line r of
                   None \<Rightarrow> record_result PASS ''structural'' i (''Found in '' @ n_loc nd)
                 | Some n \<Rightarrow>
                     if n = 0 then record_result PASS ''structural'' i (''Found in '' @ n_loc nd)
                     else if list_ex (has (getRegion source n 5)) patterns
                     then record_result PASS ''structural'' i (''Found at '' @ n_loc nd)
                     else record_result WARN ''structural'' i
                            (''Found in file but not near line '' @ show_nat n)]
                @ (case n_schema nd of
                     None \<Rightarrow> []
                   | Some sc \<Rightarrow>
                       if sc \<noteq> [] \<and> \<not> has source (Text sc)
                       then [record_result FAIL ''structural'' i
                               (''Schema '' @ quoted sc @ '' not found'')]
                       else [])
                @ (case n_values nd of
                     None \<Rightarrow> []
                   | Some vals \<Rightarrow>
                       concat (map (\<lambda>val.
                         if \<not> has source (Text val)
                         then [record_result FAIL ''structural'' i
                                 (''Enum value '' @ quoted val @ '' not found'')]
                         else []) vals)))"

definition methodPatterns :: "string \<Rightarrow> pattern list" where
  "methodPatterns methodName =
     [RegExp (Seq [Opt (Seq [Lit ''async'', Plus Space]),
                   Lit methodName, Star Space, Lit ''(''] ) False,
      RegExp (Seq [Alt [Lit ''private'', Lit ''public'', Lit ''protected''], Plus Space,
                   Opt (Seq [Lit ''async'', Plus Space]),
                   Lit methodName, Star Space, Lit ''(''] ) False,
      RegExp (Seq [Lit ''def'', Plus Space, Lit methodName, Star Space, Lit ''(''] ) False,
      RegExp (Seq [Lit ''func'', Plus Space, Lit methodName, Star Space, Lit ''(''] ) False,
      RegExp (Seq [Lit ''fn'', Plus Space, Lit methodName, Star Space, One (OneOf ''<('')]) False]"

text \<open>\<open>name.split(".").pop()\<close>: the part after the last dot.\<close>

definition last_segment :: "string \<Rightarrow> string" where
  "last_segment s = last (split_on CHR ''.'' s)"

definition verifyMethodNode :: "world \<Rightarrow> string \<Rightarrow> node \<Rightarrow> string \<Rightarrow> string \<Rightarrow> result list" where
  "verifyMethodNode w i nd root projectRoot =
     (let r = resolveLoc w (n_loc nd) root projectRoot in
      case readSource w (filePath r) of
        None \<Rightarrow> [file_not_found i nd]
      | Some source \<Rightarrow>
          if source = [] then [file_not_found i nd]
          else
            let fullName = remove_first ''method:'' i;
                methodName = last_segment fullName;
                patterns = methodPatterns methodName
            in
              if \<not> list_ex (has source) patterns
              then [record_result FAIL ''structural'' i
                      (''Method '' @ quoted methodName @ '' not found in '' @ n_loc nd)]
              else
                [case line r of
                   None \<Rightarrow> record_result PASS ''structural'' i (''Found in '' @ n_loc nd)
                 | Some n \<Rightarrow>
                     if n = 0 then record_result PASS ''structural'' i (''Found in '' @ n_loc nd)
                     else if list_ex (has (getRegion source n 5)) patterns
                     then record_result PASS ''structural'' i (''Found at '' @ n_loc nd)
                     else record_result WARN ''structural'' i
                            (''Method found but not near line '' @ show_nat n)])"

definition tablePattern :: "string \<Rightarrow> pattern" where
  "tablePattern tableName =
     RegExp (Seq [Lit ''CREATE TABLE'', Plus Space,
                  Opt (Seq [Lit ''IF NOT EXISTS'', Plus Space]),
                  Lit tableName, WordB]) True"

text \<open>
  \<open>fk.match(/-> (\w+)/)\<close>: the word after the first arrow that is followed by a word
  character; \<open>None\<close> when there is no match.
\<close>

fun fk_match :: "string \<Rightarrow> string option" where
  "fk_match [] = None"
| "fk_match (c # cs) =
     (let m = takeWhile is_word (drop 3 (c # cs)) in
      if starts_with (c # cs) ''-> '' \<and> m \<noteq> [] then Some m else fk_match cs)"

definition verifyTableNode :: "world \<Rightarrow> string \<Rightarrow> node \<Rightarrow> string \<Rightarrow> string \<Rightarrow> result list" where
  "verifyTableNode w i nd root projectRoot =
     (let r = resolveLoc w (n_loc nd) root projectRoot in
      case readSource w (filePath r) of
        None \<Rightarrow> [file_not_found i nd]
      | Some source \<Rightarrow>
          if source = [] then [file_not_found i nd]
          else
            let tableName = remove_first ''table:'' i in
              if \<not> has source (tablePattern tableName)
              then [record_result FAIL ''structural'' i
                      (''CREATE TABLE '' @ quoted tableName @ '' not found'')]
              else
                record_result PASS ''structural'' i ''Table found''
                # (case n_fk nd of
                     None \<Rightarrow> []
                   | Some fks \<Rightarrow>
                       concat (map (\<lambda>k.
                         case fk_match k of
                           None \<Rightarrow> []
                         | Some m \<Rightarrow>
                             if \<not> has source (Text m)
                             then [record_result WARN ''structural'' i
                                     (''FK to '' @ quoted m @ '' not in DDL'')]
                             else []) fks)))"

text \<open>\<open>s.indexOf(d)\<close>, with \<open>None\<close> for \<open>-1\<close>.\<close>

fun index_of :: "char \<Rightarrow> string \<Rightarrow> nat option" where
  "index_of d [] = None"
| "index_of d (c # cs) = (if c = d then Some 0 else map_option Suc (index_of d cs))"

definition routePatterns :: "string \<Rightarrow> string \<Rightarrow> pattern list" where
  "routePatterns httpMethod path =
     [RegExp (Seq [Lit ''.'', Lit httpMethod, Star Space, Lit ''('', Star Space,
                   One quote, Lit path, One quote]) False,
      RegExp (Seq [Lit httpMethod, Star Dot, Lit path]) False]"

definition verifyEndpointNode :: "world \<Rightarrow> string \<Rightarrow> node \<Rightarrow> string \<Rightarrow> string \<Rightarrow> result list" where
  "verifyEndpointNode w i nd root projectRoot =
     (let r = resolveLoc w (n_loc nd) root projectRoot in
      case readSource w (filePath r) of
        None \<Rightarrow> [file_not_found i nd]
      | Some source \<Rightarrow>
          if source = [] then [file_not_found i nd]
          else
            let endpointStr = remove_first ''endpoint:'' i in
            case index_of CHR '' '' endpointStr of
              None \<Rightarrow>
                if has source (Text endpointStr)
                then [record_result PASS ''structural'' i ''Endpoint reference found'']
                else [record_result FAIL ''structural'' i
                        (''Endpoint '' @ quoted endpointStr @ '' not found'')]
            | Some spaceIdx \<Rightarrow>
                let httpMethod = toLowerCase (take spaceIdx endpointStr);
                    path = drop (spaceIdx + 1) endpointStr;
                    patterns = routePatterns httpMethod path
                in
                  if list_ex (has source) patterns
                  then
                    [case line r of
                       None \<Rightarrow> record_result PASS ''structural'' i (''Route found in '' @ n_loc nd)
                     | Some n \<Rightarrow>
                         if n = 0
                         then record_result PASS ''structural'' i (''Route found in '' @ n_loc nd)
                         else if list_ex (has (getRegion source n 10)) patterns
                         then record_result PASS ''structural'' i (''Route found at '' @ n_loc nd)
                         else record_result WARN ''structural'' i
                                (''Route in file but not near line '' @ show_nat n)]
                  else [record_result FAIL ''structural'' i
                          (''Route '' @ quoted (httpMethod @ '' '' @ path) @ '' not found'')])"

definition quotedPattern :: "string \<Rightarrow> pattern" where
  "quotedPattern name = RegExp (Seq [One quote, Lit name, One quote]) False"

definition verifyEventNode :: "world \<Rightarrow> string \<Rightarrow> node \<Rightarrow> string \<Rightarrow> string \<Rightarrow> result list" where
  "verifyEventNode w i nd root projectRoot =
     (let r = resolveLoc w (n_loc nd) root projectRoot in
      case readSource w (filePath r) of
        None \<Rightarrow> [file_not_found i nd]
      | Some source \<Rightarrow>
          if source = [] then [file_not_found i nd]
          else
            let eventName = remove_first ''event:'' i in
              if has source (quotedPattern eventName) \<or> has source (Text eventName)
              then [record_result PASS ''structural'' i
                      (''Event '' @ quoted eventName @ '' found'')]
              else [record_result FAIL ''structural'' i
                      (''Event '' @ quoted eventName @ '' not found'')])"

text \<open>
  The body of the loop over the nodes in \<open>runVerification\<close>: the verifier of the
  node's kind, or the file-existence check of a custom kind. The verifier is looked up
  in an object literal; for a kind that names an inherited member the lookup is truthy
  and the member is called in place of a verifier, which records nothing (the call
  returns or throws).
\<close>

definition verifyNode :: "world \<Rightarrow> string \<Rightarrow> node \<Rightarrow> string \<Rightarrow> string \<Rightarrow> result list" where
  "verifyNode w i nd root projectRoot =
     (if n_kind nd = ''type'' then verifyTypeNode w i nd root projectRoot
      else if n_kind nd = ''method'' then verifyMethodNode w i nd root projectRoot
      else if n_kind nd = ''table'' then verifyTableNode w i nd root projectRoot
      else if n_kind nd = ''endpoint'' then verifyEndpointNode w i nd root projectRoot
      else if n_kind nd = ''event'' then verifyEventNode w i nd root projectRoot
      else if n_kind nd \<in> set inherited_names then []
      else
        (case readSource w (filePath (resolveLoc w (n_loc nd) root projectRoot)) of
           None \<Rightarrow> [file_not_found i nd]
         | Some source \<Rightarrow>
             if source = [] then [file_not_found i nd]
             else [record_result PASS ''structural'' i (''File exists at '' @ n_loc nd)]))"

section \<open>Edge verification\<close>

text \<open>
  In \<open>verifyEdge\<close> both endpoints are looked up in the node table and tested for
  truthiness. When the \<open>from\<close> lookup finds only an inherited member, reading its
  \<open>loc\<close> gives \<open>undefined\<close> and \<open>resolveLoc\<close> throws: no record. An inherited member
  found for \<open>to\<close> has no \<open>schema\<close>.
\<close>

definition edgeId :: "edge \<Rightarrow> string" where
  "edgeId e = e_from e @ '' -['' @ e_rel e @ '']-> '' @ e_to e"

definition validationPatterns :: "string \<Rightarrow> pattern list" where
  "validationPatterns schemaName =
     [RegExp (Seq [Lit schemaName, Lit ''.'',
                   Alt [Lit ''parse'', Lit ''safeParse'', Lit ''validate''],
                   Star Space, Lit ''(''] ) False,
      RegExp (Seq [Lit schemaName, Lit ''.check'', Star Space, Lit ''(''] ) False]"

definition callPattern :: "string \<Rightarrow> pattern" where
  "callPattern methodName = RegExp (Seq [Lit methodName, Star Space, Lit ''(''] ) False"

definition dbPatterns :: "string \<Rightarrow> pattern list" where
  "dbPatterns tableName =
     [RegExp (Seq [Alt [Lit ''INSERT INTO'', Lit ''UPDATE'', Lit ''DELETE FROM'',
                        Seq [Lit ''SELECT'', Star Dot, Lit ''FROM'']],
                   Plus Space, Lit tableName]) True,
      RegExp (Seq [One quote, Star Dot, Lit tableName, Star Dot, One quote]) False]"

definition verifyEdge :: "world \<Rightarrow> edge \<Rightarrow> (string \<times> node) list \<Rightarrow> string \<Rightarrow> string \<Rightarrow> result list" where
  "verifyEdge w e nodes root projectRoot =
     (case get_member nodes (e_from e) of
        None \<Rightarrow> [record_result FAIL ''relational'' (edgeId e) ''Source node missing'']
      | Some fromMember \<Rightarrow>
     (case get_member nodes (e_to e) of
        None \<Rightarrow> [record_result FAIL ''relational'' (edgeId e) ''Target node missing'']
      | Some toMember \<Rightarrow>
     (case fromMember of
        Inherited \<Rightarrow> []
      | Own fromNode \<Rightarrow>
     (case readSource w (filePath (resolveLoc w (n_loc fromNode) root projectRoot)) of
        None \<Rightarrow> [record_result FAIL ''relational'' (edgeId e) ''Source file not found'']
      | Some source \<Rightarrow>
          if source = []
          then [record_result FAIL ''relational'' (edgeId e) ''Source file not found'']
          else if e_rel e = ''co_change'' then
            [record_result PASS ''relational'' (edgeId e)
               (''Co-change contract'' @
                  (case e_note e of
                     None \<Rightarrow> []
                   | Some n \<Rightarrow> if n = [] then [] else '': '' @ n))]
          else if e_rel e = ''validates'' then
            (case (case toMember of Own toNode \<Rightarrow> n_schema toNode | Inherited \<Rightarrow> None) of
               None \<Rightarrow>
                 [record_result WARN ''relational'' (edgeId e) ''No schema declared on target'']
             | Some schemaName \<Rightarrow>
                 if schemaName = []
                 then [record_result WARN ''relational'' (edgeId e)
                         ''No schema declared on target'']
                 else if list_ex (has source) (validationPatterns schemaName)
                 then [record_result PASS ''relational'' (edgeId e)
                         (schemaName @ '' validation found'')]
                 else [record_result FAIL ''relational'' (edgeId e)
                         (''No '' @ schemaName @ '' validation call'')])
          else if e_rel e = ''calls'' then
            (let methodName = last_segment (remove_first ''method:'' (e_to e)) in
             if has source (callPattern methodName)
             then [record_result PASS ''relational'' (edgeId e) ''Call site found'']
             else [record_result FAIL ''relational'' (edgeId e)
                     (''No call to '' @ quoted methodName)])
          else if e_rel e = ''writes'' \<or> e_rel e = ''reads'' then
            (let tableName = remove_first ''table:'' (e_to e) in
             if list_ex (has source) (dbPatterns tableName)
             then [record_result PASS ''relational'' (edgeId e)
                     (''DB op on '' @ quoted tableName @ '' found'')]
             else [record_result WARN ''relational'' (edgeId e)
                     ''No direct DB op (may be indirect)''])
          else if e_rel e = ''emits'' then
            (let eventName = remove_first ''event:'' (e_to e) in
             if has source (quotedPattern eventName)
             then [record_result PASS ''relational'' (edgeId e)
                     (''Event '' @ quoted eventName @ '' referenced'')]
             else [record_result FAIL ''relational'' (edgeId e)
                     (''No reference to '' @ quoted eventName)])
          else if e_rel e = ''listens'' then
            (let eventName = remove_first ''event:'' (e_to e) in
             if has source (quotedPattern eventName)
             then [record_result PASS ''relational'' (edgeId e)
                     (''Listener for '' @ quoted eventName @ '' found'')]
             else [record_result WARN ''relational'' (edgeId e)
                     (''No listener for '' @ quoted eventName)])
          else [record_result PASS ''relational'' (edgeId e)
                  (''Relation '' @ quoted (e_rel e) @ '' accepted'')]))))"

text \<open>
  The loop over the edges in \<open>runVerification\<close>: an entry with a truthy \<open>_comment\<close>
  is passed over.
\<close>

definition verifyEdges :: "world \<Rightarrow> edge list \<Rightarrow> (string \<times> node) list \<Rightarrow> string \<Rightarrow> string \<Rightarrow> result list" where
  "verifyEdges w es nodes root projectRoot =
     concat (map (\<lambda>e. if truthy (e_comment e) then []
                        else verifyEdge w e nodes root projectRoot) es)"

section \<open>Flow verification\<close>

definition terminal :: "string \<Rightarrow> bool" where
  "terminal t = (t = ''next'' \<or> t = ''DONE'' \<or> t = ''FAIL'')"

text \<open>
  \<open>Object.entries(step.then)\<close> under the guard \<open>typeof step.then === "object"\<close>:
  a string \<open>then\<close> has no entries.
\<close>

definition branch_entries :: "step \<Rightarrow> (string \<times> string) list" where
  "branch_entries st = (case s_then st of Goto t \<Rightarrow> [] | Branch bs \<Rightarrow> bs)"

text \<open>What one step pushes on \<open>missing\<close> in the existence loop.\<close>

definition missing_of_step :: "(string \<times> node) list \<Rightarrow> step \<Rightarrow> string list" where
  "missing_of_step nodes st =
     (if get_member nodes (s_node st) = None then [s_node st] else [])
     @ filter (\<lambda>target. \<not> terminal target \<and> get_member nodes target = None)
         (map snd (branch_entries st))"

text \<open>The ids that the existence loop looks up in the node table.\<close>

definition flow_ids :: "flow \<Rightarrow> string list" where
  "flow_ids fl = concat (map (\<lambda>st. s_node st # map snd (branch_entries st)) (f_steps fl))"

definition flow_existence :: "(string \<times> node) list \<Rightarrow> string \<Rightarrow> flow \<Rightarrow> result" where
  "flow_existence nodes name fl =
     (let missing = concat (map (missing_of_step nodes) (f_steps fl)) in
      if missing = []
      then record_result PASS ''flow'' name
             (''All '' @ show_nat (length (f_steps fl)) @ '' step nodes exist'')
      else record_result FAIL ''flow'' name (''Missing nodes: '' @ join '', '' missing))"

text \<open>The warnings of the reachability loop, one per offending entry, in order.\<close>

definition unreachable_warnings :: "string \<Rightarrow> flow \<Rightarrow> result list" where
  "unreachable_warnings name fl =
     concat (map (\<lambda>st.
       concat (map (\<lambda>(cond, target).
         if \<not> terminal target \<and> \<not> list_ex (\<lambda>s. s_node s = target) (f_steps fl)
         then [record_result WARN ''flow'' name
                 (quoted cond @ '' -> '' @ quoted target @ '' not in step list'')]
         else []) (branch_entries st))) (f_steps fl))"

definition flow_reachability :: "string \<Rightarrow> flow \<Rightarrow> result list" where
  "flow_reachability name fl =
     (let warnings = unreachable_warnings name fl in
      warnings @
      (if warnings = []
       then [record_result PASS ''flow'' name ''All branch targets reachable'']
       else []))"

definition verifyFlows :: "(string \<times> flow) list \<Rightarrow> (string \<times> node) list \<Rightarrow> result list" where
  "verifyFlows fls nodes =
     concat (map (\<lambda>(name, fl). flow_existence nodes name fl # flow_reachability name fl) fls)"

section \<open>Invariant verification\<close>

text \<open>The dash of the message, as the bytes of its UTF-8 encoding.\<close>

definition em_dash :: string where
  "em_dash = [CHR 0xE2, CHR 0x80, CHR 0x94]"

definition scope_of :: "invariant \<Rightarrow> string list" where
  "scope_of iv = (case inv_scope iv of None \<Rightarrow> [] | Some ids \<Rightarrow> ids)"

text \<open>
  The loop over the scoped nodes: it stops at the first file that is not found, and it
  throws (\<open>None\<close>) when it comes to an inherited member, which has no \<open>loc\<close>.
\<close>

fun allFilesExist :: "world \<Rightarrow> string \<Rightarrow> string \<Rightarrow> node member list \<Rightarrow> bool option" where
  "allFilesExist w root projectRoot [] = Some True"
| "allFilesExist w root projectRoot (Inherited # ms) = None"
| "allFilesExist w root projectRoot (Own n # ms) =
     (if no_source (readSource w (filePath (resolveLoc w (n_loc n) root projectRoot)))
      then Some False
      else allFilesExist w root projectRoot ms)"

definition verifyInvariant :: "world \<Rightarrow> (string \<times> node) list \<Rightarrow> string \<Rightarrow> string \<Rightarrow> invariant \<Rightarrow> result list" where
  "verifyInvariant w nodes root projectRoot iv =
     (let missingNodes = filter (\<lambda>s. get_member nodes s = None) (scope_of iv) in
      if missingNodes \<noteq> []
      then [record_result FAIL ''invariant'' (inv_id iv)
              (''Scoped nodes missing: '' @ join '', '' missingNodes)]
      else
        let scopeNodes = List.map_filter (get_member nodes) (scope_of iv) in
          case allFilesExist w root projectRoot scopeNodes of
            None \<Rightarrow> []
          | Some False \<Rightarrow>
              [record_result FAIL ''invariant'' (inv_id iv) ''Some scoped files not found'']
          | Some True \<Rightarrow>
              [record_result WARN ''invariant'' (inv_id iv)
                 (inv_rule iv @ '' '' @ em_dash @ '' requires manual/custom verification'' @
                  (case inv_enforce iv of
                     None \<Rightarrow> []
                   | Some en \<Rightarrow> if en = [] then [] else '' [enforce: '' @ en @ '']''))])"

definition verifyInvariants :: "world \<Rightarrow> invariant list \<Rightarrow> (string \<times> node) list \<Rightarrow> string \<Rightarrow> string \<Rightarrow> result list" where
  "verifyInvariants w invs nodes root projectRoot =
     concat (map (verifyInvariant w nodes root projectRoot) invs)"

section \<open>The verification run\<close>

definition count_status :: "status \<Rightarrow> result list \<Rightarrow> nat" where
  "count_status st rs = length (filter (\<lambda>r. status r = st) rs)"

text \<open>
  The run returns the result list and the exit status of the process:
  \<open>process.exit(1)\<close> when \<open>fail > 0\<close>, and otherwise the normal end of the program,
  status 0.
\<close>

definition all_results :: "world \<Rightarrow> flowgraph \<Rightarrow> string \<Rightarrow> result list" where
  "all_results w fg projectRoot =
     (let root = (case fg_root fg of None \<Rightarrow> [] | Some r \<Rightarrow> r) in
        concat (map (\<lambda>(i, nd). verifyNode w i nd root projectRoot) (fg_nodes fg))
      @ verifyEdges w (fg_edges fg) (fg_nodes fg) root projectRoot
      @ (case fg_flows fg of None \<Rightarrow> [] | Some fls \<Rightarrow> verifyFlows fls (fg_nodes fg))
      @ (case fg_invariants fg of
           None \<Rightarrow> []
         | Some invs \<Rightarrow> verifyInvariants w invs (fg_nodes fg) root projectRoot))"

definition runVerification :: "world \<Rightarrow> flowgraph \<Rightarrow> string \<Rightarrow> result list \<times> nat" where
  "runVerification w fg projectRoot =
     (let results = all_results w fg projectRoot;
          fail = count_status FAIL results
      in (results, if fail > 0 then 1 else 0))"

section \<open>Impact analysis\<close>

record containing_flow =
  cf_name :: string
  cf_flow :: flow
  inFlow :: bool
  branchTarget :: bool

record impact =
  outgoing :: "edge list"
  incoming :: "edge list"
  cochangeOut :: "edge list"
  cochangeIn :: "edge list"
  containingFlows :: "containing_flow list"
  scopedInvariants :: "invariant list"

text \<open>
  The outcome of the query: the lookup of the id is falsy (the sorted ids of all nodes
  are printed and the process exits with status 1), or the four answers. Of the node
  that the lookup finds only \<open>kind\<close> and \<open>loc\<close> are printed.
\<close>

datatype impact_outcome = NotFound "string list" | Found impact

definition is_branch_target :: "string \<Rightarrow> step \<Rightarrow> bool" where
  "is_branch_target nodeId st = (nodeId \<in> set (map snd (branch_entries st)))"

definition runImpactAnalysis :: "string \<Rightarrow> flowgraph \<Rightarrow> impact_outcome" where
  "runImpactAnalysis nodeId fg =
     (let es = filter (\<lambda>e. \<not> truthy (e_comment e)) (fg_edges fg) in
      case get_member (fg_nodes fg) nodeId of
        None \<Rightarrow> NotFound (sort (map fst (fg_nodes fg)))
      | Some nd \<Rightarrow>
          let out = filter (\<lambda>e. e_from e = nodeId) es;
              inc = filter (\<lambda>e. e_to e = nodeId) es
          in Found
            \<lparr> outgoing = out,
              incoming = inc,
              cochangeOut = filter (\<lambda>e. e_rel e = ''co_change'') out,
              cochangeIn = filter (\<lambda>e. e_rel e = ''co_change'') inc,
              containingFlows =
                concat (map (\<lambda>(name, fl).
                  let inF = list_ex (\<lambda>s. s_node s = nodeId) (f_steps fl);
                      bt = list_ex (is_branch_target nodeId) (f_steps fl)
                  in if inF \<or> bt
                     then [\<lparr> cf_name = name, cf_flow = fl, inFlow = inF, branchTarget = bt \<rparr>]
                     else [])
                  (case fg_flows fg of None \<Rightarrow> [] | Some fls \<Rightarrow> fls)),
              scopedInvariants =
                filter (\<lambda>iv. nodeId \<in> set (scope_of iv))
                  (case fg_invariants fg of None \<Rightarrow> [] | Some invs \<Rightarrow> invs) \<rparr>)"

definition impact_exit :: "impact_outcome \<Rightarrow> nat" where
  "impact_exit out = (case out of NotFound ids \<Rightarrow> 1 | Found r \<Rightarrow> 0)"

section \<open>The wording of the specification\<close>

text \<open>
  The specification asks for an event name "present as a quoted literal or bare
  token". This definition follows those words, not the source: a bare token is an
  occurrence of the name that is not next to a word character.
\<close>

fun token_from :: "bool \<Rightarrow> string \<Rightarrow> string \<Rightarrow> bool" where
  "token_from pw [] name = (name = [] \<and> \<not> pw)"
| "token_from pw (c # cs) name =
     ((\<not> pw \<and> starts_with (c # cs) name \<and> \<not> next_word (drop (length name) (c # cs)))
      \<or> token_from (is_word c) cs name)"

definition spec_bare_token :: "string \<Rightarrow> string \<Rightarrow> bool" where
  "spec_bare_token source name = token_from False source name"

section \<open>Example documents\<close>

definition tasks_table :: node where
  "tasks_table = \<lparr> n_kind = ''table'', n_loc = ''db.sql:40'', n_schema = None,
                   n_values = None, n_fk = Some [''owner -> users''] \<rparr>"

definition create_method :: node where
  "create_method = \<lparr> n_kind = ''method'', n_loc = ''repo.ts:1'', n_schema = None,
                     n_values = None, n_fk = None \<rparr>"

definition example_nodes :: "(string \<times> node) list" where
  "example_nodes = [(''table:t'', tasks_table), (''method:m'', create_method)]"

definition co_change_edge :: edge where
  "co_change_edge = \<lparr> e_from = ''table:t'', e_to = ''method:m'', e_rel = ''co_change'',
                      e_note = None, e_comment = None \<rparr>"

definition example_files :: "(string \<times> string) list" where
  "example_files = [(''db.sql'', ''CREATE TABLE t''), (''repo.ts'', ''m()'')]"

definition switch_type :: node where
  "switch_type = \<lparr> n_kind = ''type'', n_loc = ''t.ts'', n_schema = Some ''SSchema'',
                   n_values = Some [''on'', ''off''], n_fk = None \<rparr>"

definition far_file :: string where
  "far_file = replicate 11 (CHR 0x0A) @ ''type S = get /x m()''"

definition far_node :: "string \<Rightarrow> node" where
  "far_node k = \<lparr> n_kind = k, n_loc = ''far.ts:1'', n_schema = None,
                  n_values = None, n_fk = None \<rparr>"

definition far_world :: world where
  "far_world = example_world [(''far.ts'', far_file), (''t.ts'', ''type S = on'')]"

definition jump_flow :: flow where
  "jump_flow = \<lparr> f_trigger = ''POST /tasks'',
                  f_steps = [\<lparr> s_node = ''method:m'', s_then = Goto ''method:Ghost'' \<rparr>] \<rparr>"

definition branch_flow :: flow where
  "branch_flow = \<lparr> f_trigger = ''POST /tasks'',
       f_steps = [\<lparr> s_node = ''table:t'',
                     s_then = Branch [(''ok'', ''next''), (''missing'', ''method:Ghost'')] \<rparr>,
                  \<lparr> s_node = ''method:m'', s_then = Goto ''DONE'' \<rparr>] \<rparr>"

definition retry_flow :: flow where
  "retry_flow = \<lparr> f_trigger = ''cron'',
       f_steps = [\<lparr> s_node = ''method:m'',
                     s_then = Branch [(''retry'', ''method:m''), (''ok'', ''DONE'')] \<rparr>] \<rparr>"

definition linear_flow :: flow where
  "linear_flow = \<lparr> f_trigger = ''cron'',
       f_steps = [\<lparr> s_node = ''method:X'', s_then = Goto ''next'' \<rparr>,
                  \<lparr> s_node = ''method:m'', s_then = Goto ''DONE'' \<rparr>] \<rparr>"

definition commented_edge :: edge where
  "commented_edge = \<lparr> e_from = ''table:t'', e_to = ''method:m'', e_rel = ''calls'',
                      e_note = None, e_comment = Some ''disabled for now'' \<rparr>"

definition scope_invariant :: invariant where
  "scope_invariant = \<lparr> inv_id = ''INV-001'', inv_rule = ''writes go through the repository'',
                       inv_scope = Some [''method:m''], inv_enforce = None \<rparr>"

definition example_graph :: flowgraph where
  "example_graph = \<lparr> fg_root = None, fg_nodes = example_nodes,
                     fg_edges = [commented_edge, co_change_edge],
                     fg_flows = Some [(''branching'', branch_flow), (''retry'', retry_flow)],
                     fg_invariants = Some [scope_invariant] \<rparr>"


definition inherited_flow :: flow where
  "inherited_flow = \<lparr> f_trigger = ''cron'',
       f_steps = [\<lparr> s_node = ''constructor'', s_then = Goto ''next'' \<rparr>] \<rparr>"

definition event_node :: node where
  "event_node = \<lparr> n_kind = ''event'', n_loc = ''t.ts'', n_schema = None,
                  n_values = None, n_fk = None \<rparr>"

section \<open>Lookups that find an inherited member\<close>

text \<open>
  The node table of the examples has no entry \<open>constructor\<close>, yet the lookup of that
  name is truthy: the flow check does not report it missing, and the impact query
  treats it as a known node.
\<close>

lemma inherited_step_node_passes:
  "map_of example_nodes ''constructor'' = None
   \<and> verifyFlows [(''f'', inherited_flow)] example_nodes =
       [record_result PASS ''flow'' ''f'' ''All 1 step nodes exist'',
        record_result PASS ''flow'' ''f'' ''All branch targets reachable'']"
  by code_simp

lemma inherited_impact_id_found:
  "map_of (fg_nodes example_graph) ''constructor'' = None
   \<and> impact_exit (runImpactAnalysis ''constructor'' example_graph) = 0"
  by code_simp

section \<open>Location resolver\<close>

lemma split_on_not_Nil: "split_on d s \<noteq> []"
  by (induction s) (auto split: list.splits)

lemma join_split_on: "join [d] (split_on d s) = s"
proof (induction s)
  case Nil
  show ?case by simp
next
  case (Cons c cs)
  show ?case
  proof (cases "c = d")
    case True
    obtain x xs where sp: "split_on d cs = x # xs"
      using split_on_not_Nil [of d cs] by (cases "split_on d cs") auto
    with True Cons show ?thesis by simp
  next
    case False
    obtain x xs where sp: "split_on d cs = x # xs"
      using split_on_not_Nil [of d cs] by (cases "split_on d cs") auto
    with False Cons show ?thesis by (cases xs) auto
  qed
qed

lemma join_snoc: "xs \<noteq> [] \<Longrightarrow> join sep (xs @ [y]) = join sep xs @ sep @ y"
  by (induction sep xs rule: join.induct) auto

lemma join_butlast_last:
  "length xs > 1 \<Longrightarrow> join sep (butlast xs) @ sep @ last xs = join sep xs"
proof -
  assume len: "length xs > 1"
  then have ne: "xs \<noteq> []" and bne: "butlast xs \<noteq> []"
    by (cases xs; cases "tl xs"; auto)+
  have "join sep xs = join sep (butlast xs @ [last xs])"
    using ne by simp
  also have "\<dots> = join sep (butlast xs) @ sep @ last xs"
    using bne by (rule join_snoc)
  finally show ?thesis by simp
qed

lemma split_on_append: "split_on d (p @ d # s) = split_on d p @ split_on d s"
proof (induction p)
  case Nil
  show ?case by simp
next
  case (Cons c p)
  obtain x xs where sp: "split_on d p = x # xs"
    using split_on_not_Nil [of d p] by (cases "split_on d p") auto
  with Cons show ?case by simp
qed

lemma split_on_no_sep: "d \<notin> set s \<Longrightarrow> split_on d s = [s]"
  by (induction s) auto

lemma is_numeric_no_colon: "is_numeric ds \<Longrightarrow> CHR '':'' \<notin> set ds"
  by (auto simp: is_numeric_def is_digit_def list_all_iff)

text \<open>
  C8 (as amended). A location string of the form \<open>p:d\<close>, where \<open>d\<close> is one or more
  decimal digits, loses its last colon-delimited segment: \<open>d\<close> becomes the line number
  and \<open>p\<close>, the segments before it rejoined with colons, is the path that is resolved.
  Every other string (in particular a string with no colon, even a purely numeric one)
  is the path as a whole and has no line number.
\<close>

theorem resolveLoc_strips_numeric_suffix:
  "(is_numeric d \<longrightarrow>
      resolveLoc w (p @ '':'' @ d) root projectRoot =
        \<lparr> filePath = path_resolve w projectRoot root p, line = Some (parseInt d) \<rparr>)
   \<and> ((\<nexists>p' d'. loc = p' @ '':'' @ d' \<and> is_numeric d') \<longrightarrow>
      resolveLoc w loc root projectRoot =
        \<lparr> filePath = path_resolve w projectRoot root loc, line = None \<rparr>)"
proof (intro conjI impI)
  assume num: "is_numeric d"
  then have "split_on CHR '':'' d = [d]"
    by (simp add: split_on_no_sep is_numeric_no_colon)
  then have parts: "split_on CHR '':'' (p @ '':'' @ d) = split_on CHR '':'' p @ [d]"
    by (simp add: split_on_append)
  have "length (split_on CHR '':'' p) > 0"
    using split_on_not_Nil [of "CHR '':''" p] by simp
  then show "resolveLoc w (p @ '':'' @ d) root projectRoot =
        \<lparr> filePath = path_resolve w projectRoot root p, line = Some (parseInt d) \<rparr>"
    using num parts join_split_on [of "CHR '':''" p]
    by (simp add: resolveLoc_def Let_def)
next
  let ?parts = "split_on CHR '':'' loc"
  assume none: "\<nexists>p' d'. loc = p' @ '':'' @ d' \<and> is_numeric d'"
  have "\<not> (length ?parts > 1 \<and> is_numeric (last ?parts))"
  proof
    assume st: "length ?parts > 1 \<and> is_numeric (last ?parts)"
    then have "join '':'' (butlast ?parts) @ '':'' @ last ?parts = loc"
      using join_butlast_last [of ?parts "'':''"] join_split_on [of "CHR '':''" loc] by simp
    with st none show False by metis
  qed
  then show "resolveLoc w loc root projectRoot =
        \<lparr> filePath = path_resolve w projectRoot root loc, line = None \<rparr>"
    using join_split_on [of "CHR '':''" loc]
    by (auto simp add: resolveLoc_def Let_def)
qed

theorem resolveLoc_strips_numeric_suffix_witness:
  "is_numeric ''12''
   \<and> resolveLoc (example_world []) ''src/db.ts:12'' ''r/'' ''/p/'' =
     \<lparr> filePath = ''/p/r/src/db.ts'', line = Some 12 \<rparr>
   \<and> (\<nexists>p' d'. ''42'' = p' @ '':'' @ d' \<and> is_numeric d')
   \<and> resolveLoc (example_world []) ''42'' ''r/'' ''/p/'' =
     \<lparr> filePath = ''/p/r/42'', line = None \<rparr>"
proof -
  have n: "is_numeric ''12''"
    by (simp add: is_numeric_def is_digit_def)
  have nc: "\<nexists>p' d'. ''42'' = p' @ '':'' @ d' \<and> is_numeric d'"
  proof
    assume "\<exists>p' d'. ''42'' = p' @ '':'' @ d' \<and> is_numeric d'"
    then obtain p' d' where "''42'' = p' @ '':'' @ d'" by blast
    then have "CHR '':'' \<in> set ''42''" by (metis append_Cons in_set_conv_decomp)
    then show False by simp
  qed
  show ?thesis
    using n nc
      resolveLoc_strips_numeric_suffix [of "''12''" "example_world []" "''src/db.ts''" "''r/''" "''/p/''" "''42''"]
    by (simp add: example_world_def parseInt_def)
qed

theorem resolveLoc_bare_number_counterexample:
  "is_numeric (last (split_on CHR '':'' ''42''))
   \<and> resolveLoc (example_world []) ''42'' '''' '''' = \<lparr> filePath = ''42'', line = None \<rparr>"
  by (simp add: resolveLoc_def Let_def is_numeric_def is_digit_def example_world_def)

section \<open>Edge verification: co-change edges\<close>

lemma resolveLoc_tasks_table:
  "resolveLoc w (n_loc tasks_table) [] [] =
     \<lparr> filePath = path_resolve w [] [] ''db.sql'', line = Some 40 \<rparr>"
  by (simp add: resolveLoc_def Let_def is_numeric_def is_digit_def parseInt_def tasks_table_def)

text \<open>
  C1 (as amended). For every edge with relation \<open>co_change\<close> whose \<open>from\<close> and \<open>to\<close>
  ids both exist in the node table: when the file of the \<open>from\<close> node is read with
  non-empty content, the relational check records exactly one PASS, whatever the
  content is; when the file cannot be read, it records FAIL "Source file not found".
\<close>

theorem co_change_passes_when_source_found:
  assumes "e_rel e = ''co_change''"
    and "map_of nodes (e_from e) = Some fromNode"
    and "map_of nodes (e_to e) = Some toNode"
  shows "(\<forall>source.
            readSource w (filePath (resolveLoc w (n_loc fromNode) root projectRoot)) = Some source
            \<and> source \<noteq> [] \<longrightarrow>
            verifyEdge w e nodes root projectRoot =
              [record_result PASS ''relational'' (edgeId e)
                 (''Co-change contract'' @
                    (case e_note e of
                       None \<Rightarrow> []
                     | Some n \<Rightarrow> if n = [] then [] else '': '' @ n))])
       \<and> (readSource w (filePath (resolveLoc w (n_loc fromNode) root projectRoot)) = None \<longrightarrow>
            verifyEdge w e nodes root projectRoot =
              [record_result FAIL ''relational'' (edgeId e) ''Source file not found''])"
  using assms by (auto simp: verifyEdge_def get_member_def split: option.splits)

theorem co_change_passes_when_source_found_witness:
  "verifyEdge (example_world example_files) co_change_edge example_nodes [] [] =
     [record_result PASS ''relational'' ''table:t -[co_change]-> method:m'' ''Co-change contract'']
   \<and> verifyEdge (example_world [(''repo.ts'', ''m()'')]) co_change_edge example_nodes [] [] =
     [record_result FAIL ''relational'' ''table:t -[co_change]-> method:m''
        ''Source file not found'']"
proof -
  have rel: "e_rel co_change_edge = ''co_change''"
    and fr: "map_of example_nodes (e_from co_change_edge) = Some tasks_table"
    and to: "map_of example_nodes (e_to co_change_edge) = Some create_method"
    by (simp_all add: co_change_edge_def example_nodes_def)
  have src: "readSource (example_world example_files)
      (filePath (resolveLoc (example_world example_files) (n_loc tasks_table) [] []))
      = Some ''CREATE TABLE t''"
    by (simp add: resolveLoc_tasks_table readSource_def example_world_def example_files_def)
  have nosrc: "readSource (example_world [(''repo.ts'', ''m()'')])
      (filePath (resolveLoc (example_world [(''repo.ts'', ''m()'')]) (n_loc tasks_table) [] []))
      = None"
    by (simp add: resolveLoc_tasks_table readSource_def example_world_def)
  have eid: "edgeId co_change_edge = ''table:t -[co_change]-> method:m''"
    by (simp add: edgeId_def co_change_edge_def)
  have nt: "e_note co_change_edge = None"
    by (simp add: co_change_edge_def)
  from co_change_passes_when_source_found
         [OF rel fr to, of "example_world example_files" "[]" "[]"]
       co_change_passes_when_source_found
         [OF rel fr to, of "example_world [(''repo.ts'', ''m()'')]" "[]" "[]"]
  show ?thesis
    using src nosrc eid nt by simp
qed

theorem co_change_unreadable_source_counterexample:
  "e_rel co_change_edge = ''co_change''
   \<and> map_of example_nodes (e_from co_change_edge) = Some tasks_table
   \<and> map_of example_nodes (e_to co_change_edge) = Some create_method
   \<and> verifyEdge (example_world [(''repo.ts'', ''m()'')]) co_change_edge example_nodes [] [] =
     [record_result FAIL ''relational'' ''table:t -[co_change]-> method:m''
        ''Source file not found'']"
  by (simp add: verifyEdge_def get_member_def tasks_table_def create_method_def
      example_nodes_def co_change_edge_def example_world_def readSource_def edgeId_def
      resolveLoc_def Let_def is_numeric_def is_digit_def parseInt_def)

section \<open>Node verification: optional fields\<close>

lemma concat_map_if:
  "concat (map (\<lambda>x. if \<not> P x then [f x] else []) xs) = map f (filter (\<lambda>x. \<not> P x) xs)"
  by (induction xs) auto

lemma concat_map_case_if:
  "concat (map (\<lambda>k. case g k of None \<Rightarrow> [] | Some m \<Rightarrow> if \<not> P m then [f m] else []) ks)
     = map f (filter (\<lambda>m. \<not> P m) (List.map_filter g ks))"
  by (induction ks) (auto simp: List.map_filter_simps split: option.splits)

lemma includes_str_Nil: "includes_str s []"
  by (cases s) auto

lemma resolveLoc_plain:
  "resolveLoc w ''t.ts'' [] [] = \<lparr> filePath = path_resolve w [] [] ''t.ts'', line = None \<rparr>"
  by (simp add: resolveLoc_def Let_def is_numeric_def is_digit_def)

text \<open>
  C2 (as amended). In node verification the optional-field checks of a type node
  (\<open>schema\<close>, \<open>values\<close>) never produce a WARN record: every record after the existence
  result is a FAIL, one for a declared schema name that is absent from the file and one
  for each enumerated value that is absent. The \<open>fk\<close> check of a table node is the
  exception: every record after the existence result is a WARN, one for each foreign
  key whose referenced name is absent from the file. Method, endpoint and event nodes
  have no optional-field check.
\<close>

theorem optional_field_records:
  assumes "readSource w (filePath (resolveLoc w (n_loc nd) root projectRoot)) = Some source"
    and "source \<noteq> []"
  shows "(list_ex (has source) (typePatterns (remove_first ''type:'' i)) \<longrightarrow>
          tl (verifyTypeNode w i nd root projectRoot) =
            (case n_schema nd of
               None \<Rightarrow> []
             | Some sc \<Rightarrow>
                 if includes_str source sc then []
                 else [record_result FAIL ''structural'' i
                         (''Schema '' @ quoted sc @ '' not found'')])
            @ map (\<lambda>val. record_result FAIL ''structural'' i
                            (''Enum value '' @ quoted val @ '' not found''))
                (filter (\<lambda>val. \<not> includes_str source val)
                   (case n_values nd of None \<Rightarrow> [] | Some vals \<Rightarrow> vals)))
       \<and> (has source (tablePattern (remove_first ''table:'' i)) \<longrightarrow>
          tl (verifyTableNode w i nd root projectRoot) =
            map (\<lambda>m. record_result WARN ''structural'' i (''FK to '' @ quoted m @ '' not in DDL''))
              (filter (\<lambda>m. \<not> includes_str source m)
                 (List.map_filter fk_match (case n_fk nd of None \<Rightarrow> [] | Some fks \<Rightarrow> fks))))
       \<and> (\<forall>r \<in> set (tl (verifyTypeNode w i nd root projectRoot)). status r = FAIL)
       \<and> (\<forall>r \<in> set (tl (verifyTableNode w i nd root projectRoot)). status r = WARN)
       \<and> tl (verifyMethodNode w i nd root projectRoot) = []
       \<and> tl (verifyEndpointNode w i nd root projectRoot) = []
       \<and> tl (verifyEventNode w i nd root projectRoot) = []"
proof (intro conjI impI)
  assume "list_ex (has source) (typePatterns (remove_first ''type:'' i))"
  with assms show "tl (verifyTypeNode w i nd root projectRoot) =
            (case n_schema nd of
               None \<Rightarrow> []
             | Some sc \<Rightarrow>
                 if includes_str source sc then []
                 else [record_result FAIL ''structural'' i
                         (''Schema '' @ quoted sc @ '' not found'')])
            @ map (\<lambda>val. record_result FAIL ''structural'' i
                            (''Enum value '' @ quoted val @ '' not found''))
                (filter (\<lambda>val. \<not> includes_str source val)
                   (case n_values nd of None \<Rightarrow> [] | Some vals \<Rightarrow> vals))"
    by (auto simp: verifyTypeNode_def Let_def concat_map_if includes_str_Nil split: option.splits)
next
  assume "has source (tablePattern (remove_first ''table:'' i))"
  with assms show "tl (verifyTableNode w i nd root projectRoot) =
            map (\<lambda>m. record_result WARN ''structural'' i (''FK to '' @ quoted m @ '' not in DDL''))
              (filter (\<lambda>m. \<not> includes_str source m)
                 (List.map_filter fk_match (case n_fk nd of None \<Rightarrow> [] | Some fks \<Rightarrow> fks)))"
    by (auto simp: verifyTableNode_def Let_def concat_map_case_if split: option.splits)
next
  show "\<forall>r \<in> set (tl (verifyTypeNode w i nd root projectRoot)). status r = FAIL"
    by (auto simp: verifyTypeNode_def Let_def record_result_def split: option.splits if_splits)
next
  show "\<forall>r \<in> set (tl (verifyTableNode w i nd root projectRoot)). status r = WARN"
    by (auto simp: verifyTableNode_def Let_def record_result_def split: option.splits if_splits)
next
  show "tl (verifyMethodNode w i nd root projectRoot) = []"
    by (auto simp: verifyMethodNode_def Let_def split: option.splits)
next
  show "tl (verifyEndpointNode w i nd root projectRoot) = []"
    by (auto simp: verifyEndpointNode_def Let_def split: option.splits)
next
  show "tl (verifyEventNode w i nd root projectRoot) = []"
    by (auto simp: verifyEventNode_def Let_def split: option.splits)
qed

theorem optional_field_records_witness:
  "tl (verifyTypeNode far_world ''type:S'' switch_type [] []) =
     [record_result FAIL ''structural'' ''type:S'' (''Schema '' @ quoted ''SSchema'' @ '' not found''),
      record_result FAIL ''structural'' ''type:S'' (''Enum value '' @ quoted ''off'' @ '' not found'')]
   \<and> tl (verifyTableNode (example_world example_files) ''table:t'' tasks_table [] []) =
     [record_result WARN ''structural'' ''table:t'' (''FK to '' @ quoted ''users'' @ '' not in DDL'')]"
proof -
  have s1: "readSource far_world (filePath (resolveLoc far_world (n_loc switch_type) [] []))
      = Some ''type S = on''"
    by (simp add: switch_type_def resolveLoc_plain readSource_def far_world_def example_world_def)
  have p1: "list_ex (has ''type S = on'') (typePatterns (remove_first ''type:'' ''type:S''))"
    by code_simp
  have s2: "readSource (example_world example_files)
      (filePath (resolveLoc (example_world example_files) (n_loc tasks_table) [] []))
      = Some ''CREATE TABLE t''"
    by (simp add: resolveLoc_tasks_table readSource_def example_world_def example_files_def)
  have p2: "has ''CREATE TABLE t'' (tablePattern (remove_first ''table:'' ''table:t''))"
    by code_simp
  have f: "List.map_filter fk_match [''owner -> users''] = [''users'']"
    by code_simp
  from optional_field_records [OF s1, of "''type:S''"] p1
  have a: "tl (verifyTypeNode far_world ''type:S'' switch_type [] []) =
     [record_result FAIL ''structural'' ''type:S'' (''Schema '' @ quoted ''SSchema'' @ '' not found''),
      record_result FAIL ''structural'' ''type:S'' (''Enum value '' @ quoted ''off'' @ '' not found'')]"
    by (simp add: switch_type_def)
  from optional_field_records [OF s2, of "''table:t''"] p2 f
  have b: "tl (verifyTableNode (example_world example_files) ''table:t'' tasks_table [] []) =
     [record_result WARN ''structural'' ''table:t'' (''FK to '' @ quoted ''users'' @ '' not in DDL'')]"
    by (simp add: tasks_table_def)
  from a b show ?thesis by simp
qed

theorem table_fk_warn_counterexample:
  "n_kind tasks_table = ''table''
   \<and> n_fk tasks_table = Some [''owner -> users'']
   \<and> verifyNode (example_world example_files) ''table:t'' tasks_table [] [] =
     [record_result PASS ''structural'' ''table:t'' ''Table found'',
      record_result WARN ''structural'' ''table:t'' (''FK to '' @ quoted ''users'' @ '' not in DDL'')]"
  by code_simp

section \<open>Node verification: the window around the declared line\<close>

lemma resolveLoc_far:
  "resolveLoc w (n_loc (far_node k)) [] [] =
     \<lparr> filePath = path_resolve w [] [] ''far.ts'', line = Some 1 \<rparr>"
  by (simp add: far_node_def resolveLoc_def Let_def is_numeric_def is_digit_def parseInt_def)

text \<open>
  C3 (as amended). Let the file of a node be read with non-empty content and let its
  \<open>loc\<close> carry a line number other than 0. For a type or method node (window of radius
  5) and for an endpoint node whose id has an HTTP-method prefix (radius 10): if one of
  the kind's patterns matches in the file and none matches in the region that
  \<open>getRegion\<close> cuts around the line, the existence result is WARN instead of PASS.
  Table and event nodes, and endpoint nodes without a method prefix, have no window:
  their existence result is PASS as soon as the evidence is in the file, wherever the
  declared line is.
\<close>

theorem window_downgrades_to_warn:
  assumes "readSource w (filePath (resolveLoc w (n_loc nd) root projectRoot)) = Some source"
    and "source \<noteq> []"
    and "line (resolveLoc w (n_loc nd) root projectRoot) = Some n"
    and "n \<noteq> 0"
  shows "(n_kind nd = ''type''
          \<and> list_ex (has source) (typePatterns (remove_first ''type:'' i))
          \<and> \<not> list_ex (has (getRegion source n 5)) (typePatterns (remove_first ''type:'' i)) \<longrightarrow>
          hd (verifyNode w i nd root projectRoot) =
            record_result WARN ''structural'' i
              (''Found in file but not near line '' @ show_nat n))
       \<and> (n_kind nd = ''method''
          \<and> list_ex (has source)
               (methodPatterns (last_segment (remove_first ''method:'' i)))
          \<and> \<not> list_ex (has (getRegion source n 5))
               (methodPatterns (last_segment (remove_first ''method:'' i))) \<longrightarrow>
          verifyNode w i nd root projectRoot =
            [record_result WARN ''structural'' i
               (''Method found but not near line '' @ show_nat n)])
       \<and> (\<forall>k. n_kind nd = ''endpoint''
          \<and> index_of CHR '' '' (remove_first ''endpoint:'' i) = Some k
          \<and> list_ex (has source)
               (routePatterns (toLowerCase (take k (remove_first ''endpoint:'' i)))
                  (drop (k + 1) (remove_first ''endpoint:'' i)))
          \<and> \<not> list_ex (has (getRegion source n 10))
               (routePatterns (toLowerCase (take k (remove_first ''endpoint:'' i)))
                  (drop (k + 1) (remove_first ''endpoint:'' i))) \<longrightarrow>
          verifyNode w i nd root projectRoot =
            [record_result WARN ''structural'' i
               (''Route in file but not near line '' @ show_nat n)])
       \<and> (n_kind nd = ''table''
          \<and> has source (tablePattern (remove_first ''table:'' i)) \<longrightarrow>
          hd (verifyNode w i nd root projectRoot) =
            record_result PASS ''structural'' i ''Table found'')
       \<and> (n_kind nd = ''event''
          \<and> (has source (quotedPattern (remove_first ''event:'' i))
              \<or> has source (Text (remove_first ''event:'' i))) \<longrightarrow>
          verifyNode w i nd root projectRoot =
            [record_result PASS ''structural'' i
               (''Event '' @ quoted (remove_first ''event:'' i) @ '' found'')])
       \<and> (n_kind nd = ''endpoint''
          \<and> index_of CHR '' '' (remove_first ''endpoint:'' i) = None
          \<and> has source (Text (remove_first ''endpoint:'' i)) \<longrightarrow>
          verifyNode w i nd root projectRoot =
            [record_result PASS ''structural'' i ''Endpoint reference found''])"
proof (intro conjI impI allI)
  assume "n_kind nd = ''type''
          \<and> list_ex (has source) (typePatterns (remove_first ''type:'' i))
          \<and> \<not> list_ex (has (getRegion source n 5)) (typePatterns (remove_first ''type:'' i))"
  with assms show "hd (verifyNode w i nd root projectRoot) =
            record_result WARN ''structural'' i
              (''Found in file but not near line '' @ show_nat n)"
    by (simp add: verifyNode_def verifyTypeNode_def Let_def)
next
  assume "n_kind nd = ''method''
          \<and> list_ex (has source)
               (methodPatterns (last_segment (remove_first ''method:'' i)))
          \<and> \<not> list_ex (has (getRegion source n 5))
               (methodPatterns (last_segment (remove_first ''method:'' i)))"
  with assms show "verifyNode w i nd root projectRoot =
            [record_result WARN ''structural'' i
               (''Method found but not near line '' @ show_nat n)]"
    by (simp add: verifyNode_def verifyMethodNode_def Let_def)
next
  fix k
  assume "n_kind nd = ''endpoint''
          \<and> index_of CHR '' '' (remove_first ''endpoint:'' i) = Some k
          \<and> list_ex (has source)
               (routePatterns (toLowerCase (take k (remove_first ''endpoint:'' i)))
                  (drop (k + 1) (remove_first ''endpoint:'' i)))
          \<and> \<not> list_ex (has (getRegion source n 10))
               (routePatterns (toLowerCase (take k (remove_first ''endpoint:'' i)))
                  (drop (k + 1) (remove_first ''endpoint:'' i)))"
  with assms show "verifyNode w i nd root projectRoot =
            [record_result WARN ''structural'' i
               (''Route in file but not near line '' @ show_nat n)]"
    by (simp add: verifyNode_def verifyEndpointNode_def Let_def)
next
  assume "n_kind nd = ''table'' \<and> has source (tablePattern (remove_first ''table:'' i))"
  with assms show "hd (verifyNode w i nd root projectRoot) =
            record_result PASS ''structural'' i ''Table found''"
    by (simp add: verifyNode_def verifyTableNode_def Let_def)
next
  assume "n_kind nd = ''event''
          \<and> (has source (quotedPattern (remove_first ''event:'' i))
              \<or> has source (Text (remove_first ''event:'' i)))"
  with assms show "verifyNode w i nd root projectRoot =
            [record_result PASS ''structural'' i
               (''Event '' @ quoted (remove_first ''event:'' i) @ '' found'')]"
    by (simp add: verifyNode_def verifyEventNode_def Let_def)
next
  assume "n_kind nd = ''endpoint''
          \<and> index_of CHR '' '' (remove_first ''endpoint:'' i) = None
          \<and> has source (Text (remove_first ''endpoint:'' i))"
  with assms show "verifyNode w i nd root projectRoot =
            [record_result PASS ''structural'' i ''Endpoint reference found'']"
    by (simp add: verifyNode_def verifyEndpointNode_def Let_def)
qed

theorem window_downgrades_to_warn_witness:
  "hd (verifyNode far_world ''type:S'' (far_node ''type'') [] []) =
     record_result WARN ''structural'' ''type:S'' ''Found in file but not near line 1''
   \<and> verifyNode far_world ''method:R.m'' (far_node ''method'') [] [] =
     [record_result WARN ''structural'' ''method:R.m'' ''Method found but not near line 1'']
   \<and> verifyNode far_world ''endpoint:GET /x'' (far_node ''endpoint'') [] [] =
     [record_result WARN ''structural'' ''endpoint:GET /x'' ''Route in file but not near line 1'']
   \<and> hd (verifyNode (example_world example_files) ''table:t'' tasks_table [] []) =
     record_result PASS ''structural'' ''table:t'' ''Table found''
   \<and> verifyNode far_world ''event:get'' (far_node ''event'') [] [] =
     [record_result PASS ''structural'' ''event:get'' (''Event '' @ quoted ''get'' @ '' found'')]
   \<and> verifyNode far_world ''endpoint:/x'' (far_node ''endpoint'') [] [] =
     [record_result PASS ''structural'' ''endpoint:/x'' ''Endpoint reference found'']"
proof -
  have src: "readSource far_world (filePath (resolveLoc far_world (n_loc (far_node k)) [] []))
      = Some far_file" for k
    by (simp add: resolveLoc_far readSource_def far_world_def example_world_def)
  have ne: "far_file \<noteq> []"
    by (simp add: far_file_def)
  have ln: "line (resolveLoc far_world (n_loc (far_node k)) [] []) = Some 1" for k
    by (simp add: resolveLoc_far)
  have one: "(1::nat) \<noteq> 0" by simp
  have sn: "show_nat 1 = ''1''" "show_nat (Suc 0) = ''1''" by code_simp+
  have kd: "n_kind (far_node k) = k" for k by (simp add: far_node_def)
  have t1: "list_ex (has far_file) (typePatterns (remove_first ''type:'' ''type:S''))"
    by code_simp
  have t2: "\<not> list_ex (has (getRegion far_file 1 5))
      (typePatterns (remove_first ''type:'' ''type:S''))"
    by code_simp
  have m1: "list_ex (has far_file)
      (methodPatterns (last_segment (remove_first ''method:'' ''method:R.m'')))"
    by code_simp
  have m2: "\<not> list_ex (has (getRegion far_file 1 5))
      (methodPatterns (last_segment (remove_first ''method:'' ''method:R.m'')))"
    by code_simp
  have e0: "index_of CHR '' '' (remove_first ''endpoint:'' ''endpoint:GET /x'') = Some 3"
    by code_simp
  have e1: "list_ex (has far_file)
      (routePatterns (toLowerCase (take 3 (remove_first ''endpoint:'' ''endpoint:GET /x'')))
         (drop (3 + 1) (remove_first ''endpoint:'' ''endpoint:GET /x'')))"
    by code_simp
  have e2: "\<not> list_ex (has (getRegion far_file 1 10))
      (routePatterns (toLowerCase (take 3 (remove_first ''endpoint:'' ''endpoint:GET /x'')))
         (drop (3 + 1) (remove_first ''endpoint:'' ''endpoint:GET /x'')))"
    by code_simp
  have tsrc: "readSource (example_world example_files)
      (filePath (resolveLoc (example_world example_files) (n_loc tasks_table) [] []))
      = Some ''CREATE TABLE t''"
    by (simp add: resolveLoc_tasks_table readSource_def example_world_def example_files_def)
  have tne: "''CREATE TABLE t'' \<noteq> []" by simp
  have tln: "line (resolveLoc (example_world example_files) (n_loc tasks_table) [] []) = Some 40"
    by (simp add: resolveLoc_tasks_table)
  have forty: "(40::nat) \<noteq> 0" by simp
  have tk: "n_kind tasks_table = ''table''" by (simp add: tasks_table_def)
  have tp: "has ''CREATE TABLE t'' (tablePattern (remove_first ''table:'' ''table:t''))"
    by code_simp
  have ev: "has far_file (Text (remove_first ''event:'' ''event:get''))"
    by code_simp
  have evn: "remove_first ''event:'' ''event:get'' = ''get''"
    by code_simp
  have p0: "index_of CHR '' '' (remove_first ''endpoint:'' ''endpoint:/x'') = None"
    by code_simp
  have p1: "has far_file (Text (remove_first ''endpoint:'' ''endpoint:/x''))"
    by code_simp
  from window_downgrades_to_warn [OF src ne ln one, of "''type''" "''type:S''"] t1 t2
  have a: "hd (verifyNode far_world ''type:S'' (far_node ''type'') [] []) =
     record_result WARN ''structural'' ''type:S'' ''Found in file but not near line 1''"
    by (simp add: kd sn)
  from window_downgrades_to_warn [OF src ne ln one, of "''method''" "''method:R.m''"] m1 m2
  have b: "verifyNode far_world ''method:R.m'' (far_node ''method'') [] [] =
     [record_result WARN ''structural'' ''method:R.m'' ''Method found but not near line 1'']"
    by (simp add: kd sn)
  from window_downgrades_to_warn [OF src ne ln one, of "''endpoint''" "''endpoint:GET /x''"]
    e0 e1 e2
  have c: "verifyNode far_world ''endpoint:GET /x'' (far_node ''endpoint'') [] [] =
     [record_result WARN ''structural'' ''endpoint:GET /x'' ''Route in file but not near line 1'']"
    by (simp add: kd sn)
  note tbl = window_downgrades_to_warn [OF tsrc tne tln forty, of "''table:t''"]
  have d: "hd (verifyNode (example_world example_files) ''table:t'' tasks_table [] []) =
     record_result PASS ''structural'' ''table:t'' ''Table found''"
    by (rule tbl [THEN conjunct2, THEN conjunct2, THEN conjunct2, THEN conjunct1, THEN mp,
          OF conjI [OF tk tp]])
  note evt = window_downgrades_to_warn [OF src ne ln one, of "''event''" "''event:get''"]
  have e: "verifyNode far_world ''event:get'' (far_node ''event'') [] [] =
     [record_result PASS ''structural'' ''event:get'' (''Event '' @ quoted ''get'' @ '' found'')]"
    using evt [THEN conjunct2, THEN conjunct2, THEN conjunct2, THEN conjunct2, THEN conjunct1,
          THEN mp, OF conjI [OF kd disjI2 [OF ev]]]
    unfolding evn .
  note pln = window_downgrades_to_warn [OF src ne ln one, of "''endpoint''" "''endpoint:/x''"]
  have f: "verifyNode far_world ''endpoint:/x'' (far_node ''endpoint'') [] [] =
     [record_result PASS ''structural'' ''endpoint:/x'' ''Endpoint reference found'']"
    by (rule pln [THEN conjunct2, THEN conjunct2, THEN conjunct2, THEN conjunct2, THEN conjunct2,
          THEN mp, OF conjI [OF kd conjI [OF p0 p1]]])
  from a b c d e f show ?thesis by simp
qed

theorem table_ignores_line_counterexample:
  "n_kind tasks_table = ''table''
   \<and> line (resolveLoc (example_world example_files) (n_loc tasks_table) [] []) = Some 40
   \<and> readSource (example_world example_files)
       (filePath (resolveLoc (example_world example_files) (n_loc tasks_table) [] []))
       = Some ''CREATE TABLE t''
   \<and> has ''CREATE TABLE t'' (tablePattern (remove_first ''table:'' ''table:t''))
   \<and> \<not> has (getRegion ''CREATE TABLE t'' 40 15) (tablePattern (remove_first ''table:'' ''table:t''))
   \<and> hd (verifyNode (example_world example_files) ''table:t'' tasks_table [] []) =
       record_result PASS ''structural'' ''table:t'' ''Table found''"
  by code_simp

section \<open>Flow verification\<close>

lemma get_member_None_own: "get_member obj k = None \<Longrightarrow> map_of obj k = None"
  by (simp add: get_member_def split: option.splits)

lemma get_member_None:
  "k \<notin> set inherited_names \<Longrightarrow> (get_member obj k = None) = (map_of obj k = None)"
  by (simp add: get_member_def split: option.splits)

lemma missing_set:
  assumes plain: "set (flow_ids fl) \<inter> set inherited_names = {}"
  shows "set (concat (map (missing_of_step nodes) (f_steps fl))) =
     {x. map_of nodes x = None \<and>
         (\<exists>st \<in> set (f_steps fl). x = s_node st \<or>
            (\<exists>bs c. s_then st = Branch bs \<and> (c, x) \<in> set bs \<and> \<not> terminal x))}"
proof (intro set_eqI iffI)
  fix x
  assume "x \<in> set (concat (map (missing_of_step nodes) (f_steps fl)))"
  then obtain st where st: "st \<in> set (f_steps fl)" and x: "x \<in> set (missing_of_step nodes st)"
    by auto
  from x have "get_member nodes x = None"
    by (auto simp: missing_of_step_def split: if_splits)
  then have abs: "map_of nodes x = None"
    by (rule get_member_None_own)
  from x have "x = s_node st \<or>
      (\<exists>bs c. s_then st = Branch bs \<and> (c, x) \<in> set bs \<and> \<not> terminal x)"
    by (cases "s_then st") (auto simp: missing_of_step_def branch_entries_def split: if_splits)
  with st abs show "x \<in> {x. map_of nodes x = None \<and>
         (\<exists>st \<in> set (f_steps fl). x = s_node st \<or>
            (\<exists>bs c. s_then st = Branch bs \<and> (c, x) \<in> set bs \<and> \<not> terminal x))}"
    by blast
next
  fix x
  assume "x \<in> {x. map_of nodes x = None \<and>
         (\<exists>st \<in> set (f_steps fl). x = s_node st \<or>
            (\<exists>bs c. s_then st = Branch bs \<and> (c, x) \<in> set bs \<and> \<not> terminal x))}"
  then obtain st where abs: "map_of nodes x = None" and st: "st \<in> set (f_steps fl)"
    and c: "x = s_node st \<or>
            (\<exists>bs c. s_then st = Branch bs \<and> (c, x) \<in> set bs \<and> \<not> terminal x)"
    by blast
  from c have "x \<in> set (s_node st # map snd (branch_entries st))"
    by (force simp: branch_entries_def)
  with st have "x \<in> set (flow_ids fl)"
    by (auto simp: flow_ids_def)
  with plain have "x \<notin> set inherited_names"
    by blast
  with abs have "get_member nodes x = None"
    by (simp add: get_member_None)
  with c have "x \<in> set (missing_of_step nodes st)"
    by (force simp: missing_of_step_def branch_entries_def)
  with st show "x \<in> set (concat (map (missing_of_step nodes) (f_steps fl)))"
    by auto
qed

lemma reachability_never_fails:
  "count_status FAIL (flow_reachability name fl) = 0"
  by (auto simp: flow_reachability_def unreachable_warnings_def record_result_def Let_def
      count_status_def filter_empty_conv split: if_splits)

text \<open>
  C4 (as amended). Take a flow in which no id that the existence check looks up is the
  name of a member that every object inherits (\<open>constructor\<close>, \<open>toString\<close>, ...). Its
  existence check records one result. It is a FAIL whose message lists every missing
  id when the node id of a step, or a target other than \<open>next\<close>, \<open>DONE\<close>, \<open>FAIL\<close>
  inside a mapping-valued \<open>then\<close>, is absent from the global node table; it is a PASS
  when none is absent. It is the only FAIL a flow can get. A \<open>then\<close> that is itself a
  node id (a jump) is not looked up.
\<close>

theorem flow_existence_lists_missing:
  assumes "set (flow_ids fl) \<inter> set inherited_names = {}"
  shows "(let missing_ids =
       {x. map_of nodes x = None \<and>
           (\<exists>st \<in> set (f_steps fl). x = s_node st \<or>
              (\<exists>bs c. s_then st = Branch bs \<and> (c, x) \<in> set bs \<and> \<not> terminal x))}
    in (missing_ids = {} \<longrightarrow>
          flow_existence nodes name fl =
            record_result PASS ''flow'' name
              (''All '' @ show_nat (length (f_steps fl)) @ '' step nodes exist''))
     \<and> (missing_ids \<noteq> {} \<longrightarrow>
          (\<exists>ms. set ms = missing_ids \<and>
             flow_existence nodes name fl =
               record_result FAIL ''flow'' name (''Missing nodes: '' @ join '', '' ms)))
     \<and> count_status FAIL (verifyFlows [(name, fl)] nodes) = (if missing_ids = {} then 0 else 1))
   \<and> hd (verifyFlows [(name, fl)] nodes) = flow_existence nodes name fl"
proof -
  let ?ms = "concat (map (missing_of_step nodes) (f_steps fl))"
  let ?ids = "{x. map_of nodes x = None \<and>
           (\<exists>st \<in> set (f_steps fl). x = s_node st \<or>
              (\<exists>bs c. s_then st = Branch bs \<and> (c, x) \<in> set bs \<and> \<not> terminal x))}"
  have ids: "set ?ms = ?ids"
    using assms by (rule missing_set)
  then have empty: "(?ids = {}) = (?ms = [])"
    by (metis set_empty)
  have pass: "?ms = [] \<Longrightarrow> flow_existence nodes name fl =
            record_result PASS ''flow'' name
              (''All '' @ show_nat (length (f_steps fl)) @ '' step nodes exist'')"
    by (simp add: flow_existence_def)
  have fail: "flow_existence nodes name fl =
            record_result FAIL ''flow'' name (''Missing nodes: '' @ join '', '' ?ms)"
    if "?ms \<noteq> []"
    using that unfolding flow_existence_def Let_def by (rule if_not_P)
  have cnt: "count_status FAIL (verifyFlows [(name, fl)] nodes) = (if ?ms = [] then 0 else 1)"
    using reachability_never_fails [of name fl]
    by (simp add: verifyFlows_def count_status_def flow_existence_def record_result_def)
  have hd: "hd (verifyFlows [(name, fl)] nodes) = flow_existence nodes name fl"
    by (simp add: verifyFlows_def)
  have ex: "?ids \<noteq> {} \<Longrightarrow> \<exists>ms. set ms = ?ids \<and>
             flow_existence nodes name fl =
               record_result FAIL ''flow'' name (''Missing nodes: '' @ join '', '' ms)"
    using ids empty fail by blast
  show ?thesis
    unfolding Let_def using pass ex cnt hd empty by presburger
qed

theorem flow_existence_lists_missing_witness:
  "set (flow_ids branch_flow) \<inter> set inherited_names = {}
   \<and> count_status FAIL (verifyFlows [(''f'', branch_flow)] example_nodes) = 1
   \<and> flow_existence example_nodes ''f'' branch_flow =
       record_result FAIL ''flow'' ''f'' ''Missing nodes: method:Ghost''
   \<and> set (flow_ids retry_flow) \<inter> set inherited_names = {}
   \<and> count_status FAIL (verifyFlows [(''g'', retry_flow)] example_nodes) = 0
   \<and> flow_existence example_nodes ''g'' retry_flow =
       record_result PASS ''flow'' ''g'' ''All 1 step nodes exist''"
proof -
  let ?ids = "\<lambda>fl. {x. map_of example_nodes x = None \<and>
           (\<exists>st \<in> set (f_steps fl). x = s_node st \<or>
              (\<exists>bs c. s_then st = Branch bs \<and> (c, x) \<in> set bs \<and> \<not> terminal x))}"
  have p1: "set (flow_ids branch_flow) \<inter> set inherited_names = {}"
    by (simp add: flow_ids_def branch_flow_def branch_entries_def inherited_names_def)
  have p2: "set (flow_ids retry_flow) \<inter> set inherited_names = {}"
    by (simp add: flow_ids_def retry_flow_def branch_entries_def inherited_names_def)
  have "''method:Ghost'' \<in> ?ids branch_flow"
    by (simp add: branch_flow_def example_nodes_def terminal_def)
  then have ne: "?ids branch_flow \<noteq> {}"
    by blast
  have e: "?ids retry_flow = {}"
    by (auto simp: retry_flow_def example_nodes_def terminal_def)
  have a: "count_status FAIL (verifyFlows [(''f'', branch_flow)] example_nodes) = 1"
    using flow_existence_lists_missing [OF p1, of example_nodes "''f''"] ne
    unfolding Let_def by presburger
  have b: "count_status FAIL (verifyFlows [(''g'', retry_flow)] example_nodes) = 0
      \<and> flow_existence example_nodes ''g'' retry_flow =
        record_result PASS ''flow'' ''g''
          (''All '' @ show_nat (length (f_steps retry_flow)) @ '' step nodes exist'')"
    using flow_existence_lists_missing [OF p2, of example_nodes "''g''"] e
    unfolding Let_def by presburger
  have n: "''All '' @ show_nat (length (f_steps retry_flow)) @ '' step nodes exist''
      = ''All 1 step nodes exist''"
    by code_simp
  have c: "flow_existence example_nodes ''f'' branch_flow =
       record_result FAIL ''flow'' ''f'' ''Missing nodes: method:Ghost''"
    by code_simp
  from p1 p2 a b c n show ?thesis by simp
qed

theorem flow_jump_target_counterexample:
  "f_steps jump_flow = [\<lparr> s_node = ''method:m'', s_then = Goto ''method:Ghost'' \<rparr>]
   \<and> \<not> terminal ''method:Ghost''
   \<and> map_of example_nodes ''method:Ghost'' = None
   \<and> verifyFlows [(''f'', jump_flow)] example_nodes =
       [record_result PASS ''flow'' ''f'' ''All 1 step nodes exist'',
        record_result PASS ''flow'' ''f'' ''All branch targets reachable'']"
  by code_simp

lemma concat_map_concat_map:
  "concat (map (\<lambda>st. concat (map f (g st))) sts) = concat (map f (concat (map g sts)))"
  by (induction sts) auto

lemma concat_map_filter_prod:
  "concat (map (\<lambda>(c, t). if P c t then [f c t] else []) es)
     = map (\<lambda>(c, t). f c t) (filter (\<lambda>(c, t). P c t) es)"
  by (induction es) auto

lemma concat_map_map_filter:
  "concat (map (\<lambda>x. map f (filter P (g x))) xs) = map f (filter P (concat (map g xs)))"
  by (induction xs) auto

lemma unreachable_warnings_eq:
  "unreachable_warnings name fl =
     map (\<lambda>(cond, target). record_result WARN ''flow'' name
            (quoted cond @ '' -> '' @ quoted target @ '' not in step list''))
       (filter (\<lambda>(cond, target). \<not> terminal target \<and> target \<notin> s_node ` set (f_steps fl))
          (concat (map (\<lambda>st. case s_then st of Goto t \<Rightarrow> [] | Branch bs \<Rightarrow> bs) (f_steps fl))))"
proof -
  have ex: "list_ex (\<lambda>s. s_node s = t) (f_steps fl) = (t \<in> s_node ` set (f_steps fl))" for t
    by (auto simp: list_ex_iff)
  have be: "branch_entries = (\<lambda>st. case s_then st of Goto t \<Rightarrow> [] | Branch bs \<Rightarrow> bs)"
    by (rule ext) (simp add: branch_entries_def)
  show ?thesis
    unfolding unreachable_warnings_def ex be
    by (simp only: concat_map_filter_prod
          [of "\<lambda>cond target. \<not> terminal target \<and> target \<notin> s_node ` set (f_steps fl)"
              "\<lambda>cond target. record_result WARN ''flow'' name
                         (quoted cond @ '' -> '' @ quoted target @ '' not in step list'')"]
          concat_map_map_filter)
qed

text \<open>
  C5 (as amended). For every flow, every target other than \<open>next\<close>, \<open>DONE\<close>, \<open>FAIL\<close>
  inside a mapping-valued \<open>then\<close> must equal the node of some step of the same flow
  (the branching step itself counts). Each entry that violates this emits exactly one
  WARN naming its condition label and its target, in order; when no entry violates it
  the reachability check records a single PASS. A flow with no branching step passes
  the reachability check; when, moreover, no step node is the name of a member that
  every object inherits, it passes the existence check exactly when the node of every
  step is in the node table, and fails it otherwise.
\<close>

theorem flow_reachability_warns:
  "(let entries = concat (map (\<lambda>st. case s_then st of Goto t \<Rightarrow> [] | Branch bs \<Rightarrow> bs)
                            (f_steps fl));
        violations = filter (\<lambda>(cond, target).
                        \<not> terminal target \<and> target \<notin> s_node ` set (f_steps fl)) entries
    in flow_reachability name fl =
         (if violations = []
          then [record_result PASS ''flow'' name ''All branch targets reachable'']
          else map (\<lambda>(cond, target). record_result WARN ''flow'' name
                      (quoted cond @ '' -> '' @ quoted target @ '' not in step list''))
                 violations))
   \<and> ((\<forall>st \<in> set (f_steps fl). \<exists>t. s_then st = Goto t) \<longrightarrow>
        flow_reachability name fl =
          [record_result PASS ''flow'' name ''All branch targets reachable''])
   \<and> ((\<forall>st \<in> set (f_steps fl). \<exists>t. s_then st = Goto t)
        \<and> set (flow_ids fl) \<inter> set inherited_names = {} \<longrightarrow>
        (status (flow_existence nodes name fl) = PASS
             \<longleftrightarrow> (\<forall>st \<in> set (f_steps fl). map_of nodes (s_node st) \<noteq> None))
        \<and> (status (flow_existence nodes name fl) = FAIL
             \<longleftrightarrow> (\<exists>st \<in> set (f_steps fl). map_of nodes (s_node st) = None)))"
proof (intro conjI impI)
  show "let entries = concat (map (\<lambda>st. case s_then st of Goto t \<Rightarrow> [] | Branch bs \<Rightarrow> bs)
                            (f_steps fl));
        violations = filter (\<lambda>(cond, target).
                        \<not> terminal target \<and> target \<notin> s_node ` set (f_steps fl)) entries
    in flow_reachability name fl =
         (if violations = []
          then [record_result PASS ''flow'' name ''All branch targets reachable'']
          else map (\<lambda>(cond, target). record_result WARN ''flow'' name
                      (quoted cond @ '' -> '' @ quoted target @ '' not in step list''))
                 violations)"
    unfolding flow_reachability_def unreachable_warnings_eq Let_def
    by (simp only: map_is_Nil_conv append_Nil2 if_distrib [of "\<lambda>xs. _ @ xs"] split: if_split)
      simp
next
  assume nb: "\<forall>st \<in> set (f_steps fl). \<exists>t. s_then st = Goto t"
  then have be: "\<And>st. st \<in> set (f_steps fl) \<Longrightarrow> branch_entries st = []"
    by (auto simp: branch_entries_def)
  then have "unreachable_warnings name fl = []"
    by (simp add: unreachable_warnings_def)
  then show "flow_reachability name fl =
          [record_result PASS ''flow'' name ''All branch targets reachable'']"
    by (simp add: flow_reachability_def)
next
  assume a: "(\<forall>st \<in> set (f_steps fl). \<exists>t. s_then st = Goto t)
        \<and> set (flow_ids fl) \<inter> set inherited_names = {}"
  then have be: "\<And>st. st \<in> set (f_steps fl) \<Longrightarrow> branch_entries st = []"
    by (auto simp: branch_entries_def)
  have plain: "s_node st \<notin> set inherited_names" if "st \<in> set (f_steps fl)" for st
  proof -
    from that have "s_node st \<in> set (flow_ids fl)"
      by (auto simp: flow_ids_def)
    with a show ?thesis by blast
  qed
  have m1: "missing_of_step nodes st =
      (if map_of nodes (s_node st) = None then [s_node st] else [])"
    if "st \<in> set (f_steps fl)" for st
    using be [OF that] plain [OF that] by (simp add: missing_of_step_def get_member_None)
  have "(concat (map (missing_of_step nodes) (f_steps fl)) = [])
      = (\<forall>st \<in> set (f_steps fl). missing_of_step nodes st = [])"
    by simp
  also have "\<dots> = (\<forall>st \<in> set (f_steps fl). map_of nodes (s_node st) \<noteq> None)"
    using m1 by (metis list.distinct(1))
  finally have ms: "(concat (map (missing_of_step nodes) (f_steps fl)) = [])
      = (\<forall>st \<in> set (f_steps fl). map_of nodes (s_node st) \<noteq> None)" .
  show "status (flow_existence nodes name fl) = PASS
             \<longleftrightarrow> (\<forall>st \<in> set (f_steps fl). map_of nodes (s_node st) \<noteq> None)"
    unfolding ms [symmetric] by (simp add: flow_existence_def record_result_def Let_def del: concat_eq_Nil_conv)
  show "status (flow_existence nodes name fl) = FAIL
             \<longleftrightarrow> (\<exists>st \<in> set (f_steps fl). map_of nodes (s_node st) = None)"
    using ms by (simp add: flow_existence_def record_result_def Let_def del: concat_eq_Nil_conv)
qed

theorem flow_reachability_warns_witness:
  "flow_reachability ''f'' branch_flow =
     [record_result WARN ''flow'' ''f''
        (quoted ''missing'' @ '' -> '' @ quoted ''method:Ghost'' @ '' not in step list'')]
   \<and> flow_reachability ''g'' linear_flow =
     [record_result PASS ''flow'' ''g'' ''All branch targets reachable'']
   \<and> set (flow_ids linear_flow) \<inter> set inherited_names = {}
   \<and> status (flow_existence example_nodes ''g'' linear_flow) = FAIL"
proof -
  have v: "filter (\<lambda>(cond, target).
              \<not> terminal target \<and> target \<notin> s_node ` set (f_steps branch_flow))
            (concat (map (\<lambda>st. case s_then st of Goto t \<Rightarrow> [] | Branch bs \<Rightarrow> bs)
                            (f_steps branch_flow)))
      = [(''missing'', ''method:Ghost'')]"
    by (simp add: branch_flow_def terminal_def)
  have a: "flow_reachability ''f'' branch_flow =
     [record_result WARN ''flow'' ''f''
        (quoted ''missing'' @ '' -> '' @ quoted ''method:Ghost'' @ '' not in step list'')]"
    using flow_reachability_warns [of branch_flow "''f''" example_nodes]
    unfolding Let_def v by simp
  have nb: "\<forall>st \<in> set (f_steps linear_flow). \<exists>t. s_then st = Goto t"
    by (simp add: linear_flow_def)
  have pl: "set (flow_ids linear_flow) \<inter> set inherited_names = {}"
    by (simp add: flow_ids_def linear_flow_def branch_entries_def inherited_names_def)
  have ab: "\<exists>st \<in> set (f_steps linear_flow). map_of example_nodes (s_node st) = None"
    by (simp add: linear_flow_def example_nodes_def)
  have b: "flow_reachability ''g'' linear_flow =
     [record_result PASS ''flow'' ''g'' ''All branch targets reachable'']
   \<and> status (flow_existence example_nodes ''g'' linear_flow) = FAIL"
    using flow_reachability_warns [of linear_flow "''g''" example_nodes] nb pl ab
    by blast
  from a b pl show ?thesis by simp
qed

theorem flow_reachability_counterexample:
  "list_all (\<lambda>st. case s_then st of Goto t \<Rightarrow> True | Branch bs \<Rightarrow> False) (f_steps linear_flow)
   \<and> verifyFlows [(''g'', linear_flow)] example_nodes =
       [record_result FAIL ''flow'' ''g'' ''Missing nodes: method:X'',
        record_result PASS ''flow'' ''g'' ''All branch targets reachable'']
   \<and> f_steps retry_flow =
       [\<lparr> s_node = ''method:m'',
          s_then = Branch [(''retry'', ''method:m''), (''ok'', ''DONE'')] \<rparr>]
   \<and> verifyFlows [(''h'', retry_flow)] example_nodes =
       [record_result PASS ''flow'' ''h'' ''All 1 step nodes exist'',
        record_result PASS ''flow'' ''h'' ''All branch targets reachable'']"
  by code_simp

section \<open>Impact analysis\<close>

lemma containing_flow_names:
  "map cf_name (concat (map (\<lambda>(name, fl).
       if P fl \<or> Q fl
       then [\<lparr> cf_name = name, cf_flow = fl, inFlow = P fl, branchTarget = Q fl \<rparr>]
       else []) fls))
   = map fst (filter (\<lambda>(name, fl). P fl \<or> Q fl) fls)"
  by (induction fls) (auto split: if_splits)

text \<open>
  C6 (as amended). Impact analysis on a node id that is absent from the node table, and
  is not the name of a member that every object inherits (\<open>constructor\<close>,
  \<open>toString\<close>, ...), yields the not-found outcome: the ids of all nodes are reported,
  sorted, and the exit status is 1, whatever the edges are. On an id present in the
  node table it succeeds with exit status 0 and returns
  exactly the edges without a truthy \<open>_comment\<close> whose \<open>from\<close> is the id as outgoing,
  those whose \<open>to\<close> is the id as incoming, the flows in which the id is the node of a
  step or a value of a mapping-valued \<open>then\<close>, and the invariants whose scope contains
  the id.
\<close>

theorem impact_analysis_answers:
  "(map_of (fg_nodes fg) nodeId = None \<and> nodeId \<notin> set inherited_names \<longrightarrow>
      (\<forall>es. runImpactAnalysis nodeId (fg\<lparr> fg_edges := es \<rparr>)
              = NotFound (sort (map fst (fg_nodes fg))))
      \<and> impact_exit (runImpactAnalysis nodeId fg) = 1
      \<and> set (sort (map fst (fg_nodes fg))) = fst ` set (fg_nodes fg))
   \<and> (map_of (fg_nodes fg) nodeId \<noteq> None \<longrightarrow>
      (\<exists>r. runImpactAnalysis nodeId fg = Found r
         \<and> impact_exit (runImpactAnalysis nodeId fg) = 0
         \<and> outgoing r =
             filter (\<lambda>e. \<not> truthy (e_comment e) \<and> e_from e = nodeId) (fg_edges fg)
         \<and> incoming r =
             filter (\<lambda>e. \<not> truthy (e_comment e) \<and> e_to e = nodeId) (fg_edges fg)
         \<and> map cf_name (containingFlows r) =
             map fst (filter (\<lambda>(name, fl).
                 (\<exists>st \<in> set (f_steps fl). s_node st = nodeId)
                 \<or> (\<exists>st \<in> set (f_steps fl). \<exists>bs c. s_then st = Branch bs \<and> (c, nodeId) \<in> set bs))
               (case fg_flows fg of None \<Rightarrow> [] | Some fls \<Rightarrow> fls))
         \<and> scopedInvariants r =
             filter (\<lambda>iv. case inv_scope iv of None \<Rightarrow> False | Some ids \<Rightarrow> nodeId \<in> set ids)
               (case fg_invariants fg of None \<Rightarrow> [] | Some invs \<Rightarrow> invs)))"
proof (intro conjI impI allI)
  assume "map_of (fg_nodes fg) nodeId = None \<and> nodeId \<notin> set inherited_names"
  then have absent: "get_member (fg_nodes fg) nodeId = None"
    by (simp add: get_member_None)
  show "runImpactAnalysis nodeId (fg\<lparr> fg_edges := es \<rparr>)
          = NotFound (sort (map fst (fg_nodes fg)))" for es
    using absent by (simp add: runImpactAnalysis_def)
  show "impact_exit (runImpactAnalysis nodeId fg) = 1"
    using absent by (simp add: runImpactAnalysis_def impact_exit_def)
  show "set (sort (map fst (fg_nodes fg))) = fst ` set (fg_nodes fg)"
    by simp
next
  assume "map_of (fg_nodes fg) nodeId \<noteq> None"
  then obtain own where "map_of (fg_nodes fg) nodeId = Some own"
    by blast
  then have nd: "get_member (fg_nodes fg) nodeId = Some (Own own)"
    by (simp add: get_member_def)
  have bt: "is_branch_target nodeId st
      = (\<exists>bs c. s_then st = Branch bs \<and> (c, nodeId) \<in> set bs)" for st
  proof (cases "s_then st")
    case (Goto t)
    then show ?thesis
      by (simp add: is_branch_target_def branch_entries_def)
  next
    case (Branch bs)
    have "(nodeId \<in> snd ` set bs) = (\<exists>c. (c, nodeId) \<in> set bs)"
      by force
    with Branch show ?thesis
      by (simp add: is_branch_target_def branch_entries_def)
  qed
  have btf: "is_branch_target nodeId
      = (\<lambda>st. \<exists>bs c. s_then st = Branch bs \<and> (c, nodeId) \<in> set bs)"
    by (rule ext) (rule bt)
  have sc: "(nodeId \<in> set (scope_of iv))
      = (case inv_scope iv of None \<Rightarrow> False | Some ids \<Rightarrow> nodeId \<in> set ids)" for iv
    by (simp add: scope_of_def split: option.splits)
  let ?es = "filter (\<lambda>e. \<not> truthy (e_comment e)) (fg_edges fg)"
  let ?fls = "case fg_flows fg of None \<Rightarrow> [] | Some fls \<Rightarrow> fls"
  let ?r = "\<lparr> outgoing = filter (\<lambda>e. e_from e = nodeId) ?es,
              incoming = filter (\<lambda>e. e_to e = nodeId) ?es,
              cochangeOut = filter (\<lambda>e. e_rel e = ''co_change'')
                              (filter (\<lambda>e. e_from e = nodeId) ?es),
              cochangeIn = filter (\<lambda>e. e_rel e = ''co_change'')
                             (filter (\<lambda>e. e_to e = nodeId) ?es),
              containingFlows =
                concat (map (\<lambda>(name, fl).
                  if list_ex (\<lambda>s. s_node s = nodeId) (f_steps fl)
                     \<or> list_ex (is_branch_target nodeId) (f_steps fl)
                  then [\<lparr> cf_name = name, cf_flow = fl,
                          inFlow = list_ex (\<lambda>s. s_node s = nodeId) (f_steps fl),
                          branchTarget = list_ex (is_branch_target nodeId) (f_steps fl) \<rparr>]
                  else []) ?fls),
              scopedInvariants =
                filter (\<lambda>iv. nodeId \<in> set (scope_of iv))
                  (case fg_invariants fg of None \<Rightarrow> [] | Some invs \<Rightarrow> invs) \<rparr>"
  have run: "runImpactAnalysis nodeId fg = Found ?r"
    using nd by (simp add: runImpactAnalysis_def Let_def)
  have ex: "impact_exit (Found ?r) = 0"
    by (simp add: impact_exit_def)
  have out: "outgoing ?r =
      filter (\<lambda>e. \<not> truthy (e_comment e) \<and> e_from e = nodeId) (fg_edges fg)"
    by simp
  have inc: "incoming ?r =
      filter (\<lambda>e. \<not> truthy (e_comment e) \<and> e_to e = nodeId) (fg_edges fg)"
    by simp
  have "map cf_name (containingFlows ?r) =
      map fst (filter (\<lambda>(name, fl). list_ex (\<lambda>s. s_node s = nodeId) (f_steps fl)
                 \<or> list_ex (is_branch_target nodeId) (f_steps fl)) ?fls)"
    by (simp only: impact.select_convs containing_flow_names)
  then have cf: "map cf_name (containingFlows ?r) =
      map fst (filter (\<lambda>(name, fl).
                 (\<exists>st \<in> set (f_steps fl). s_node st = nodeId)
                 \<or> (\<exists>st \<in> set (f_steps fl). \<exists>bs c. s_then st = Branch bs \<and> (c, nodeId) \<in> set bs))
               ?fls)"
    by (simp only: list_ex_iff btf)
  have si: "scopedInvariants ?r =
      filter (\<lambda>iv. case inv_scope iv of None \<Rightarrow> False | Some ids \<Rightarrow> nodeId \<in> set ids)
        (case fg_invariants fg of None \<Rightarrow> [] | Some invs \<Rightarrow> invs)"
    by (simp only: impact.select_convs sc)
  show "\<exists>r. runImpactAnalysis nodeId fg = Found r
         \<and> impact_exit (runImpactAnalysis nodeId fg) = 0
         \<and> outgoing r =
             filter (\<lambda>e. \<not> truthy (e_comment e) \<and> e_from e = nodeId) (fg_edges fg)
         \<and> incoming r =
             filter (\<lambda>e. \<not> truthy (e_comment e) \<and> e_to e = nodeId) (fg_edges fg)
         \<and> map cf_name (containingFlows r) =
             map fst (filter (\<lambda>(name, fl).
                 (\<exists>st \<in> set (f_steps fl). s_node st = nodeId)
                 \<or> (\<exists>st \<in> set (f_steps fl). \<exists>bs c. s_then st = Branch bs \<and> (c, nodeId) \<in> set bs))
               (case fg_flows fg of None \<Rightarrow> [] | Some fls \<Rightarrow> fls))
         \<and> scopedInvariants r =
             filter (\<lambda>iv. case inv_scope iv of None \<Rightarrow> False | Some ids \<Rightarrow> nodeId \<in> set ids)
               (case fg_invariants fg of None \<Rightarrow> [] | Some invs \<Rightarrow> invs)"
    unfolding run using ex out inc cf si by blast
qed

theorem impact_analysis_answers_witness:
  "runImpactAnalysis ''method:Ghost'' example_graph = NotFound [''method:m'', ''table:t'']
   \<and> impact_exit (runImpactAnalysis ''method:Ghost'' example_graph) = 1
   \<and> (\<exists>r. runImpactAnalysis ''method:m'' example_graph = Found r
         \<and> impact_exit (runImpactAnalysis ''method:m'' example_graph) = 0
         \<and> outgoing r = []
         \<and> incoming r = [co_change_edge]
         \<and> map cf_name (containingFlows r) = [''branching'', ''retry'']
         \<and> scopedInvariants r = [scope_invariant])"
proof -
  have absent: "map_of (fg_nodes example_graph) ''method:Ghost'' = None
      \<and> ''method:Ghost'' \<notin> set inherited_names"
    by (simp add: example_graph_def example_nodes_def inherited_names_def)
  have present: "map_of (fg_nodes example_graph) ''method:m'' \<noteq> None"
    by (simp add: example_graph_def example_nodes_def)
  have ids: "sort (map fst (fg_nodes example_graph)) = [''method:m'', ''table:t'']"
    by code_simp
  have same: "example_graph\<lparr> fg_edges := fg_edges example_graph \<rparr> = example_graph"
    by simp
  have out: "filter (\<lambda>e. \<not> truthy (e_comment e) \<and> e_from e = ''method:m'')
      (fg_edges example_graph) = []"
    by (simp add: example_graph_def commented_edge_def co_change_edge_def truthy_def)
  have inc: "filter (\<lambda>e. \<not> truthy (e_comment e) \<and> e_to e = ''method:m'')
      (fg_edges example_graph) = [co_change_edge]"
    by (simp add: example_graph_def commented_edge_def co_change_edge_def truthy_def)
  have fls: "map fst (filter (\<lambda>(name, fl).
                 (\<exists>st \<in> set (f_steps fl). s_node st = ''method:m'')
                 \<or> (\<exists>st \<in> set (f_steps fl).
                       \<exists>bs c. s_then st = Branch bs \<and> (c, ''method:m'') \<in> set bs))
               (case fg_flows example_graph of None \<Rightarrow> [] | Some fls \<Rightarrow> fls))
      = [''branching'', ''retry'']"
    by (simp add: example_graph_def branch_flow_def retry_flow_def)
  have invs: "filter (\<lambda>iv. case inv_scope iv of None \<Rightarrow> False
                              | Some ids \<Rightarrow> ''method:m'' \<in> set ids)
               (case fg_invariants example_graph of None \<Rightarrow> [] | Some invs \<Rightarrow> invs)
      = [scope_invariant]"
    by (simp add: example_graph_def scope_invariant_def)
  from impact_analysis_answers [of example_graph "''method:Ghost''"] absent
  have "(\<forall>es. runImpactAnalysis ''method:Ghost'' (example_graph\<lparr> fg_edges := es \<rparr>)
              = NotFound (sort (map fst (fg_nodes example_graph))))
      \<and> impact_exit (runImpactAnalysis ''method:Ghost'' example_graph) = 1"
    by blast
  then have a: "runImpactAnalysis ''method:Ghost'' example_graph
        = NotFound [''method:m'', ''table:t'']
      \<and> impact_exit (runImpactAnalysis ''method:Ghost'' example_graph) = 1"
    using same ids by metis
  from impact_analysis_answers [of example_graph "''method:m''"] present
  have b: "\<exists>r. runImpactAnalysis ''method:m'' example_graph = Found r
         \<and> impact_exit (runImpactAnalysis ''method:m'' example_graph) = 0
         \<and> outgoing r = []
         \<and> incoming r = [co_change_edge]
         \<and> map cf_name (containingFlows r) = [''branching'', ''retry'']
         \<and> scopedInvariants r = [scope_invariant]"
    unfolding out inc fls invs by blast
  from a b show ?thesis by blast
qed

theorem impact_commented_edge_counterexample:
  "fg_edges example_graph = [commented_edge, co_change_edge]
   \<and> e_from commented_edge = ''table:t''
   \<and> map_of (fg_nodes example_graph) ''table:t'' = Some tasks_table
   \<and> (case runImpactAnalysis ''table:t'' example_graph of
         NotFound ids \<Rightarrow> False
       | Found r \<Rightarrow> outgoing r = [co_change_edge])"
  by code_simp

section \<open>Exit status of the verification run\<close>





section \<open>Commented-out edges\<close>

lemma verifyEdges_skip:
  "truthy (e_comment e) \<Longrightarrow>
     verifyEdges w (es1 @ e # es2) nodes root projectRoot
       = verifyEdges w (es1 @ es2) nodes root projectRoot"
  by (simp add: verifyEdges_def)

lemma impact_found_edges:
  assumes "runImpactAnalysis nodeId fg = Found r"
  shows "outgoing r = filter (\<lambda>x. \<not> truthy (e_comment x) \<and> e_from x = nodeId) (fg_edges fg)"
    and "incoming r = filter (\<lambda>x. \<not> truthy (e_comment x) \<and> e_to x = nodeId) (fg_edges fg)"
proof -
  obtain nd where nd: "get_member (fg_nodes fg) nodeId = Some nd"
    using assms by (cases "get_member (fg_nodes fg) nodeId") (simp_all add: runImpactAnalysis_def)
  from assms nd
  have r: "r = \<lparr> outgoing = filter (\<lambda>x. \<not> truthy (e_comment x) \<and> e_from x = nodeId) (fg_edges fg),
               incoming = filter (\<lambda>x. \<not> truthy (e_comment x) \<and> e_to x = nodeId) (fg_edges fg),
               cochangeOut = cochangeOut r, cochangeIn = cochangeIn r,
               containingFlows = containingFlows r, scopedInvariants = scopedInvariants r \<rparr>"
    by (cases r) (simp add: runImpactAnalysis_def Let_def)
  show "outgoing r = filter (\<lambda>x. \<not> truthy (e_comment x) \<and> e_from x = nodeId) (fg_edges fg)"
    by (subst r) simp
  show "incoming r = filter (\<lambda>x. \<not> truthy (e_comment x) \<and> e_to x = nodeId) (fg_edges fg)"
    by (subst r) simp
qed

text \<open>
  C10. An entry of \<open>edges\<close> that carries a truthy \<open>_comment\<close> is skipped entirely.
  Edge verification produces no result record for it: the run with the entry and the
  run without it give the same results and the same exit status. Impact analysis
  leaves it out of its outgoing and of its incoming edges: the query answers the same
  with and without the entry, and the entry is in neither list.
\<close>

theorem commented_edge_is_skipped:
  assumes "truthy (e_comment e)"
  shows "verifyEdges w [e] nodes root projectRoot = []
       \<and> verifyEdges w (es1 @ e # es2) nodes root projectRoot
           = verifyEdges w (es1 @ es2) nodes root projectRoot
       \<and> runVerification w (fg\<lparr> fg_edges := es1 @ e # es2 \<rparr>) projectRoot
           = runVerification w (fg\<lparr> fg_edges := es1 @ es2 \<rparr>) projectRoot
       \<and> runImpactAnalysis nodeId (fg\<lparr> fg_edges := es1 @ e # es2 \<rparr>)
           = runImpactAnalysis nodeId (fg\<lparr> fg_edges := es1 @ es2 \<rparr>)
       \<and> (\<forall>r. runImpactAnalysis nodeId (fg\<lparr> fg_edges := es1 @ e # es2 \<rparr>) = Found r \<longrightarrow>
             e \<notin> set (outgoing r) \<and> e \<notin> set (incoming r))"
proof (intro conjI allI impI)
  show "verifyEdges w [e] nodes root projectRoot = []"
    using assms by (simp add: verifyEdges_def)
  show "verifyEdges w (es1 @ e # es2) nodes root projectRoot
      = verifyEdges w (es1 @ es2) nodes root projectRoot"
    using assms by (rule verifyEdges_skip)
  have "all_results w (fg\<lparr> fg_edges := es1 @ e # es2 \<rparr>) projectRoot
      = all_results w (fg\<lparr> fg_edges := es1 @ es2 \<rparr>) projectRoot"
    by (cases "fg_flows fg"; cases "fg_invariants fg")
      (simp_all add: all_results_def Let_def verifyEdges_skip [OF assms])
  then show "runVerification w (fg\<lparr> fg_edges := es1 @ e # es2 \<rparr>) projectRoot
      = runVerification w (fg\<lparr> fg_edges := es1 @ es2 \<rparr>) projectRoot"
    by (simp add: runVerification_def)
  show "runImpactAnalysis nodeId (fg\<lparr> fg_edges := es1 @ e # es2 \<rparr>)
      = runImpactAnalysis nodeId (fg\<lparr> fg_edges := es1 @ es2 \<rparr>)"
    using assms
    by (cases "get_member (fg_nodes fg) nodeId"; cases "fg_flows fg"; cases "fg_invariants fg")
      (simp_all add: runImpactAnalysis_def Let_def)
next
  fix r
  assume run: "runImpactAnalysis nodeId (fg\<lparr> fg_edges := es1 @ e # es2 \<rparr>) = Found r"
  show "e \<notin> set (outgoing r)"
    unfolding impact_found_edges(1) [OF run] using assms by simp
  show "e \<notin> set (incoming r)"
    unfolding impact_found_edges(2) [OF run] using assms by simp
qed

theorem commented_edge_is_skipped_witness:
  "truthy (e_comment commented_edge)
   \<and> runVerification (example_world example_files) example_graph []
       = runVerification (example_world example_files)
           (example_graph\<lparr> fg_edges := [co_change_edge] \<rparr>) []
   \<and> runImpactAnalysis ''table:t'' example_graph
       = runImpactAnalysis ''table:t'' (example_graph\<lparr> fg_edges := [co_change_edge] \<rparr>)
   \<and> verifyEdges (example_world example_files) [commented_edge] example_nodes [] [] = []"
proof -
  have t: "truthy (e_comment commented_edge)"
    by (simp add: truthy_def commented_edge_def)
  have g: "example_graph\<lparr> fg_edges := [] @ commented_edge # [co_change_edge] \<rparr> = example_graph"
    by (simp add: example_graph_def)
  from commented_edge_is_skipped
         [OF t, of "example_world example_files" example_nodes "[]" "[]" "[]"
            "[co_change_edge]" example_graph "''table:t''"]
  show ?thesis
    using t unfolding g by simp
qed

section \<open>Event nodes\<close>

lemma lit_nonempty: "\<not> ic \<Longrightarrow> (lit ic t pw s \<noteq> []) = starts_with s t"
  by (induction ic t pw s rule: lit.induct) (auto simp: same_char_def)

lemma lit_rest: "(pw', rest) \<in> set (lit ic t pw s) \<Longrightarrow> rest = drop (length t) s"
  by (induction ic t pw s rule: lit.induct) (auto split: if_splits)

lemma starts_with_append:
  "starts_with s (t @ u) = (starts_with s t \<and> starts_with (drop (length t) s) u)"
  by (induction s t rule: starts_with.induct) auto

lemma one_of_ends:
  "(ends False (One (OneOf qs)) (pw, s) \<noteq> []) = (\<exists>q \<in> set qs. starts_with s [q])"
  by (cases s) auto

lemma lit_then_one:
  "(concat (map (ends False (Seq [One (OneOf qs)])) (lit False name pw cs)) \<noteq> [])
      = (starts_with cs name \<and> (\<exists>q \<in> set qs. starts_with (drop (length name) cs) [q]))"
proof
  assume "concat (map (ends False (Seq [One (OneOf qs)])) (lit False name pw cs)) \<noteq> []"
  then obtain pw2 rest where p: "(pw2, rest) \<in> set (lit False name pw cs)"
    and e: "ends False (Seq [One (OneOf qs)]) (pw2, rest) \<noteq> []"
    by (auto simp del: ends.simps)
  from p have ne: "lit False name pw cs \<noteq> []" by auto
  from p have rest: "rest = drop (length name) cs" by (rule lit_rest)
  from e have "ends False (One (OneOf qs)) (pw2, rest) \<noteq> []"
    by (cases rest) auto
  then have "\<exists>q \<in> set qs. starts_with rest [q]"
    by (simp only: one_of_ends)
  with ne rest show "starts_with cs name \<and>
         (\<exists>q \<in> set qs. starts_with (drop (length name) cs) [q])"
    by (simp add: lit_nonempty)
next
  assume a: "starts_with cs name \<and> (\<exists>q \<in> set qs. starts_with (drop (length name) cs) [q])"
  then have "lit False name pw cs \<noteq> []" by (simp add: lit_nonempty)
  then obtain pw2 rest where p: "(pw2, rest) \<in> set (lit False name pw cs)"
    by (cases "lit False name pw cs") auto
  then have rest: "rest = drop (length name) cs" by (rule lit_rest)
  from a rest have "ends False (One (OneOf qs)) (pw2, rest) \<noteq> []"
    by (simp only: one_of_ends)
  then have "ends False (Seq [One (OneOf qs)]) (pw2, rest) \<noteq> []"
    by (cases rest) (auto split: if_splits)
  with p show "concat (map (ends False (Seq [One (OneOf qs)])) (lit False name pw cs)) \<noteq> []"
    by (auto simp del: ends.simps)
qed

lemma quoted_ends:
  "(ends False (Seq [One (OneOf qs), Lit name, One (OneOf qs)]) (pw, s) \<noteq> [])
     = (\<exists>q1 \<in> set qs. \<exists>q2 \<in> set qs. starts_with s (q1 # name @ [q2]))"
proof (cases s)
  case Nil
  then show ?thesis by simp
next
  case (Cons c cs)
  have step: "ends False (Seq [One (OneOf qs), Lit name, One (OneOf qs)]) (pw, c # cs)
      = (if c \<in> set qs
         then concat (map (ends False (Seq [One (OneOf qs)])) (lit False name (is_word c) cs))
         else [])"
    by simp
  have rhs: "(\<exists>q1 \<in> set qs. \<exists>q2 \<in> set qs. starts_with (c # cs) (q1 # name @ [q2]))
      = (c \<in> set qs \<and> starts_with cs name
         \<and> (\<exists>q \<in> set qs. starts_with (drop (length name) cs) [q]))"
    by (auto simp: starts_with_append)
  show ?thesis
    unfolding Cons step rhs using lit_then_one [of qs name "is_word c" cs] by auto
qed

lemma search_quoted:
  "search False (Seq [One (OneOf qs), Lit name, One (OneOf qs)]) pw s
     = (\<exists>q1 \<in> set qs. \<exists>q2 \<in> set qs. includes_str s (q1 # name @ [q2]))"
proof (induction s arbitrary: pw)
  case Nil
  have "search False (Seq [One (OneOf qs), Lit name, One (OneOf qs)]) pw []
      = (ends False (Seq [One (OneOf qs), Lit name, One (OneOf qs)]) (pw, []) \<noteq> [])"
    by (simp only: search.simps)
  then show ?case
    by (simp only: quoted_ends) simp
next
  case (Cons c cs)
  have "search False (Seq [One (OneOf qs), Lit name, One (OneOf qs)]) pw (c # cs)
      = (ends False (Seq [One (OneOf qs), Lit name, One (OneOf qs)]) (pw, c # cs) \<noteq> []
         \<or> search False (Seq [One (OneOf qs), Lit name, One (OneOf qs)]) (is_word c) cs)"
    by (simp only: search.simps)
  also have "\<dots> = ((\<exists>q1 \<in> set qs. \<exists>q2 \<in> set qs. starts_with (c # cs) (q1 # name @ [q2]))
         \<or> (\<exists>q1 \<in> set qs. \<exists>q2 \<in> set qs. includes_str cs (q1 # name @ [q2])))"
    by (simp only: quoted_ends Cons.IH)
  also have "\<dots> = (\<exists>q1 \<in> set qs. \<exists>q2 \<in> set qs. includes_str (c # cs) (q1 # name @ [q2]))"
    by (simp only: includes_str.simps) blast
  finally show ?case .
qed

lemma has_quotedPattern:
  "has source (quotedPattern name)
     = (\<exists>q1 \<in> set [CHR 0x27, CHR 0x22, CHR 0x60]. \<exists>q2 \<in> set [CHR 0x27, CHR 0x22, CHR 0x60].
          includes_str source (q1 # name @ [q2]))"
  unfolding quotedPattern_def quote_def has.simps rx_test_def by (rule search_quoted)

lemma starts_with_iff: "starts_with s t = (\<exists>zs. s = t @ zs)"
  by (induction s t rule: starts_with.induct) auto

lemma includes_str_iff: "includes_str s t = (\<exists>ys zs. s = ys @ t @ zs)"
proof (induction s)
  case Nil
  show ?case by auto
next
  case (Cons c cs)
  show ?case
  proof
    assume "includes_str (c # cs) t"
    then consider "starts_with (c # cs) t" | "includes_str cs t"
      by auto
    then show "\<exists>ys zs. c # cs = ys @ t @ zs"
    proof cases
      case 1
      then obtain zs where "c # cs = t @ zs"
        by (auto simp: starts_with_iff)
      then have "c # cs = [] @ t @ zs" by simp
      then show ?thesis by blast
    next
      case 2
      then obtain ys zs where "cs = ys @ t @ zs"
        using Cons.IH by blast
      then have "c # cs = (c # ys) @ t @ zs" by simp
      then show ?thesis by blast
    qed
  next
    assume "\<exists>ys zs. c # cs = ys @ t @ zs"
    then obtain ys zs where eq: "c # cs = ys @ t @ zs" by blast
    show "includes_str (c # cs) t"
    proof (cases ys)
      case Nil
      with eq have "starts_with (c # cs) t"
        by (auto simp: starts_with_iff)
      then show ?thesis by simp
    next
      case (Cons y ys')
      with eq have "cs = ys' @ t @ zs" by simp
      then have "includes_str cs t"
        using Cons.IH by blast
      then show ?thesis by simp
    qed
  qed
qed

lemma includes_str_inner:
  "includes_str s (q1 # name @ [q2]) \<Longrightarrow> includes_str s name"
proof -
  assume "includes_str s (q1 # name @ [q2])"
  then obtain ys zs where "s = ys @ (q1 # name @ [q2]) @ zs"
    by (auto simp: includes_str_iff)
  then have "s = (ys @ [q1]) @ name @ (q2 # zs)"
    by simp
  then show ?thesis
    unfolding includes_str_iff by blast
qed

lemma if_singleton_iff: "a \<noteq> b \<Longrightarrow> ([if P then a else b] = [a]) = P"
  by simp

lemma if_singleton_other: "xs = [if P then a else b] \<Longrightarrow> xs \<noteq> [a] \<Longrightarrow> xs = [b]"
  by (cases P) simp_all

text \<open>
  C9 (as amended). A node of kind \<open>event\<close> whose file is read passes its existence
  check if and only if the file is not empty and the event name (the id without
  \<open>event:\<close>) occurs in it as a substring: between two quote characters or bare, and
  also inside a longer word. Otherwise it records FAIL.
\<close>

theorem event_node_existence:
  assumes "n_kind nd = ''event''"
    and "readSource w (filePath (resolveLoc w (n_loc nd) root projectRoot)) = Some source"
  shows "map status (verifyNode w i nd root projectRoot) =
           [if source \<noteq> [] \<and>
               ((\<exists>q1 \<in> set [CHR 0x27, CHR 0x22, CHR 0x60].
                 \<exists>q2 \<in> set [CHR 0x27, CHR 0x22, CHR 0x60].
                   includes_str source (q1 # remove_first ''event:'' i @ [q2]))
                \<or> includes_str source (remove_first ''event:'' i))
            then PASS else FAIL]
       \<and> (map status (verifyNode w i nd root projectRoot) = [PASS]
            \<longleftrightarrow> source \<noteq> [] \<and> includes_str source (remove_first ''event:'' i))"
proof -
  let ?name = "remove_first ''event:'' i"
  let ?present = "(\<exists>q1 \<in> set [CHR 0x27, CHR 0x22, CHR 0x60].
                \<exists>q2 \<in> set [CHR 0x27, CHR 0x22, CHR 0x60].
                  includes_str source (q1 # ?name @ [q2]))
               \<or> includes_str source ?name"
  have vn: "verifyNode w i nd root projectRoot = verifyEventNode w i nd root projectRoot"
    using assms(1) by (simp add: verifyNode_def)
  have same: "?present = includes_str source ?name"
    using includes_str_inner by blast
  have st: "map status (verifyEventNode w i nd root projectRoot)
      = [if source \<noteq> [] \<and> ?present then PASS else FAIL]"
  proof (cases "source = []")
    case True
    have "map status (verifyEventNode w i nd root projectRoot) = [FAIL]"
      using True assms(2)
      by (simp add: verifyEventNode_def file_not_found_def record_result_def)
    with True show ?thesis by (simp only: not_True_eq_False simp_thms if_False)
  next
    case False
    have hq: "has source (quotedPattern ?name) \<or> has source (Text ?name) \<longleftrightarrow> ?present"
      by (simp only: has_quotedPattern has.simps)
    show ?thesis
    proof (cases ?present)
      case True
      then have "has source (quotedPattern ?name) \<or> has source (Text ?name)"
        using hq by blast
      then have "map status (verifyEventNode w i nd root projectRoot) = [PASS]"
        using False assms(2)
        by (simp add: verifyEventNode_def record_result_def del: has.simps)
      with True False show ?thesis by (simp only: simp_thms if_True)
    next
      case np: False
      then have "\<not> (has source (quotedPattern ?name) \<or> has source (Text ?name))"
        using hq by blast
      then have "map status (verifyEventNode w i nd root projectRoot) = [FAIL]"
        using False assms(2)
        by (simp add: verifyEventNode_def record_result_def del: has.simps)
      with np show ?thesis by (simp only: simp_thms if_False)
    qed
  qed
  have c1: "map status (verifyNode w i nd root projectRoot)
      = [if source \<noteq> [] \<and> ?present then PASS else FAIL]"
    unfolding vn by (rule st)
  have "(map status (verifyNode w i nd root projectRoot) = [PASS]) = (source \<noteq> [] \<and> ?present)"
    unfolding c1 by (rule if_singleton_iff) simp
  then have c2: "(map status (verifyNode w i nd root projectRoot) = [PASS])
      = (source \<noteq> [] \<and> includes_str source ?name)"
    by (simp only: same)
  from c1 c2 show ?thesis by (rule conjI)
qed

theorem event_node_existence_witness:
  "map status (verifyNode far_world ''event:on'' event_node [] []) = [PASS]
   \<and> map status (verifyNode far_world ''event:off'' event_node [] []) = [FAIL]"
proof -
  have k: "n_kind event_node = ''event''"
    by (simp add: event_node_def)
  have src: "readSource far_world (filePath (resolveLoc far_world (n_loc event_node) [] []))
      = Some ''type S = on''"
    by (simp add: event_node_def resolveLoc_plain readSource_def far_world_def example_world_def)
  have on: "''type S = on'' \<noteq> []
      \<and> includes_str ''type S = on'' (remove_first ''event:'' ''event:on'')"
    by code_simp
  have off: "\<not> (''type S = on'' \<noteq> []
      \<and> includes_str ''type S = on'' (remove_first ''event:'' ''event:off''))"
    by code_simp
  note yes = event_node_existence [OF k src, of "''event:on''"]
  note no = event_node_existence [OF k src, of "''event:off''"]
  from yes [THEN conjunct2] on
  have a: "map status (verifyNode far_world ''event:on'' event_node [] []) = [PASS]"
    by (rule iffD2)
  from no [THEN conjunct2] off
  have "map status (verifyNode far_world ''event:off'' event_node [] []) \<noteq> [PASS]"
    by (simp only: simp_thms)
  with no [THEN conjunct1]
  have b: "map status (verifyNode far_world ''event:off'' event_node [] []) = [FAIL]"
    by (rule if_singleton_other)
  from a b show ?thesis by simp
qed

theorem event_substring_counterexample:
  "n_kind event_node = ''event''
   \<and> readSource (example_world [(''t.ts'', ''conversation'')])
       (filePath (resolveLoc (example_world [(''t.ts'', ''conversation'')])
          (n_loc event_node) [] [])) = Some ''conversation''
   \<and> \<not> has ''conversation'' (quotedPattern (remove_first ''event:'' ''event:on''))
   \<and> \<not> spec_bare_token ''conversation'' (remove_first ''event:'' ''event:on'')
   \<and> verifyNode (example_world [(''t.ts'', ''conversation'')]) ''event:on'' event_node [] [] =
       [record_result PASS ''structural'' ''event:on'' (''Event '' @ quoted ''on'' @ '' found'')]
   \<and> readSource (example_world [(''t.ts'', [])])
       (filePath (resolveLoc (example_world [(''t.ts'', [])]) (n_loc event_node) [] [])) = Some []
   \<and> has [] (Text (remove_first ''event:'' ''event:''))
   \<and> verifyNode (example_world [(''t.ts'', [])]) ''event:'' event_node [] [] =
       [record_result FAIL ''structural'' ''event:'' ''File not found: t.ts'']"
  by code_simp

end
